theory Spec2Isabelle
  imports Main "HOL-Library.AList"
begin

section \<open>Python string operations used by the plugin\<close>

text \<open>
  A Python \<open>str\<close> is modelled as a \<open>string\<close> whose characters stand for the code
  points 0 to 255. The character classes below are those of \<open>str.isspace\<close>,
  \<open>str.isdigit\<close> and \<open>str.islower\<close> on that range.
\<close>

definition isspace :: "char \<Rightarrow> bool" where
  "isspace c =
     (let n = (of_char c :: nat)
      in (9 \<le> n \<and> n \<le> 13) \<or> (28 \<le> n \<and> n \<le> 32) \<or> n = 133 \<or> n = 160)"

definition isdigit_char :: "char \<Rightarrow> bool" where
  "isdigit_char c =
     (let n = (of_char c :: nat)
      in (48 \<le> n \<and> n \<le> 57) \<or> n = 178 \<or> n = 179 \<or> n = 185)"

definition islower :: "char \<Rightarrow> bool" where
  "islower c =
     (let n = (of_char c :: nat)
      in (97 \<le> n \<and> n \<le> 122) \<or> n = 170 \<or> n = 181 \<or> n = 186
         \<or> (223 \<le> n \<and> n \<le> 246) \<or> (248 \<le> n \<and> n \<le> 255))"

definition isdigit :: "string \<Rightarrow> bool" where
  "isdigit s = (s \<noteq> [] \<and> list_all isdigit_char s)"

definition strip :: "string \<Rightarrow> string" where
  "strip s = rev (dropWhile isspace (rev (dropWhile isspace s)))"

definition startswith :: "string \<Rightarrow> string \<Rightarrow> bool" where
  "startswith s p = (take (length p) s = p)"

fun contains :: "string \<Rightarrow> string \<Rightarrow> bool" where
  "contains sub [] = (sub = [])"
| "contains sub (c # cs) = (startswith (c # cs) sub \<or> contains sub cs)"

definition after_first :: "char \<Rightarrow> string \<Rightarrow> string" where
  "after_first sep s = tl (dropWhile (\<lambda>c. c \<noteq> sep) s)"

definition before_last :: "char \<Rightarrow> string \<Rightarrow> string" where
  "before_last sep s = rev (tl (dropWhile (\<lambda>c. c \<noteq> sep) (rev s)))"

definition after_last :: "char \<Rightarrow> string \<Rightarrow> string" where
  "after_last sep s = rev (takeWhile (\<lambda>c. c \<noteq> sep) (rev s))"

definition normalize_symbol_name :: "string \<Rightarrow> string" where
  "normalize_symbol_name name =
     (if name = [] then []
      else
        let s = strip name;
            s = (if CHR ''!'' \<in> set s then strip (after_first CHR ''!'' s) else s);
            s = (if startswith s ''__imp_'' then drop (length ''__imp_'') s else s);
            s = (if startswith s ''_'' then drop 1 s else s);
            s = (if CHR ''@'' \<in> set s
                 then (let base = before_last CHR ''@'' s; maybe = after_last CHR ''@'' s
                       in if isdigit maybe then base else s)
                 else s)
        in strip s)"

definition looks_like_local :: "string \<Rightarrow> bool" where
  "looks_like_local name = (name = [] \<or> startswith name ''sub_'' \<or> startswith name ''j_sub_'')"


section \<open>The request coordinator (\<open>WinDocSidebar\<close>)\<close>

text \<open>
  The host's symbol table as the coordinator sees it: a symbol has a type and a name,
  a binary view answers \<open>get_symbol_at\<close>, and a selection carries the symbol of
  \<open>selection.func\<close> (if any), \<open>addrValid\<close>, \<open>offset\<close> and \<open>start\<close>.
\<close>

datatype symbol_type = ImportedFunctionSymbol | ImportAddressSymbol | OtherSymbol

record symbol =
  sym_type :: symbol_type
  sym_name :: string

record selection =
  sel_func_symbol :: "symbol option"
  addrValid :: bool
  offset :: int
  start :: int

type_synonym binary_view = "int \<Rightarrow> symbol option"

definition is_imported_function_symbol :: "symbol option \<Rightarrow> bool" where
  "is_imported_function_symbol osym =
     (case osym of
        None \<Rightarrow> False
      | Some sy \<Rightarrow> sym_type sy = ImportedFunctionSymbol \<or> sym_type sy = ImportAddressSymbol)"

text \<open>The \<open>ScrapperThread\<close> object as the coordinator holds it.\<close>

record worker_handle =
  wh_function_name :: string
  wh_req_id :: int

text \<open>
  The arguments of one call of \<open>on_done\<close>. The four texts are strings, as the
  worker's annotations (\<open>self.syntax: str\<close>) declare them.
\<close>

record completion =
  got_req_id :: int
  func_name :: string
  c_success :: bool
  c_syntax :: string
  c_desc :: string
  c_rv :: string

text \<open>
  What the UI collaborator was asked to show: the four labels set by \<open>_apply\<close>
  (tagged with \<open>got_req_id\<close>, which is in the closure's scope), or the timeout text.
\<close>

datatype ui_update =
    ShowDocs int string string string string
  | ShowTimeout

text \<open>
  The widget's state. \<open>sb_timeout\<close> is the single-shot \<open>QTimer\<close>: \<open>None\<close> when
  stopped, \<open>Some r\<close> when armed with \<open>r\<close> milliseconds left. \<open>main_queue\<close> holds the
  \<open>_apply\<close> closures handed to \<open>execute_on_main_thread\<close> and not yet run.
  \<open>started\<close>, \<open>cancelled\<close> and \<open>ui_log\<close> record the calls of \<open>worker.start()\<close>,
  \<open>worker.cancel()\<close> and of the label updates, in order.
\<close>

record sidebar =
  sb_req_id :: int
  sb_worker :: "worker_handle option"
  sb_timeout :: "nat option"
  ui_function :: string
  ui_syntax :: string
  ui_description :: string
  ui_retval :: string
  main_queue :: "completion list"
  started :: "worker_handle list"
  cancelled :: "int list"
  ui_log :: "ui_update list"

definition timer_ms :: nat where
  "timer_ms = 4000"

definition WinDocSidebar_init :: sidebar where
  "WinDocSidebar_init =
     \<lparr>sb_req_id = 0, sb_worker = None, sb_timeout = None,
      ui_function = [], ui_syntax = [], ui_description = [], ui_retval = [],
      main_queue = [], started = [], cancelled = [], ui_log = []\<rparr>"

definition drop_worker :: "sidebar \<Rightarrow> sidebar" where
  "drop_worker s =
     (case sb_worker s of
        None \<Rightarrow> s
      | Some w \<Rightarrow> s\<lparr>cancelled := cancelled s @ [wh_req_id w], sb_worker := None\<rparr>)"

definition cancel_worker :: "sidebar \<Rightarrow> sidebar" where
  "cancel_worker s = (drop_worker s)\<lparr>sb_timeout := None\<rparr>"

definition timeout_text :: string where
  "timeout_text = ''Timed out while fetching docs.''"

definition on_timeout :: "sidebar \<Rightarrow> sidebar" where
  "on_timeout s =
     (let s1 = drop_worker s
      in s1\<lparr>ui_syntax := timeout_text, ui_log := ui_log s1 @ [ShowTimeout]\<rparr>)"

definition candidate_name :: "binary_view \<Rightarrow> selection \<Rightarrow> string" where
  "candidate_name bv sel =
     (let c1 = (case sel_func_symbol sel of
                  None \<Rightarrow> []
                | Some sy \<Rightarrow>
                    if is_imported_function_symbol (Some sy)
                    then normalize_symbol_name (sym_name sy) else []);
          c2 = (if c1 = [] then
                  (if addrValid sel then
                     (let addr = (if offset sel \<noteq> 0 then offset sel else start sel)
                      in if addr \<noteq> 0 then
                           (case bv addr of
                              None \<Rightarrow> c1
                            | Some sy \<Rightarrow>
                                if is_imported_function_symbol (Some sy)
                                then normalize_symbol_name (sym_name sy) else c1)
                         else c1)
                   else c1)
                else c1)
      in strip c2)"

text \<open>
  \<open>on_xref_selection\<close>. The frame is \<open>None\<close> when \<open>getCurrentViewInterface\<close> or
  \<open>getData\<close> raises or when the view is \<open>None\<close>.
\<close>

definition on_xref_selection :: "binary_view option \<Rightarrow> selection \<Rightarrow> sidebar \<Rightarrow> sidebar" where
  "on_xref_selection frame sel s0 =
     (let s1 = cancel_worker s0;
          s2 = s1\<lparr>sb_req_id := sb_req_id s1 + 1\<rparr>;
          rid = sb_req_id s2
      in case frame of
           None \<Rightarrow> s2
         | Some bv \<Rightarrow>
             (let cand = candidate_name bv sel
              in if looks_like_local cand then s2
                 else
                   (let w = \<lparr>wh_function_name = cand, wh_req_id = rid\<rparr>
                    in s2\<lparr>sb_worker := Some w, sb_timeout := Some timer_ms,
                          started := started s2 @ [w]\<rparr>)))"

text \<open>The closure \<open>_apply\<close> of \<open>on_done\<close>, run on the main thread.\<close>

definition apply_done :: "completion \<Rightarrow> sidebar \<Rightarrow> sidebar" where
  "apply_done c s0 =
     (let s = s0\<lparr>sb_timeout := None, sb_worker := None\<rparr>
      in if \<not> c_success c then s
         else s\<lparr>ui_function := func_name c, ui_syntax := c_syntax c,
                ui_description := c_desc c, ui_retval := c_rv c,
                ui_log := ui_log s @
                  [ShowDocs (got_req_id c) (func_name c) (c_syntax c) (c_desc c) (c_rv c)]\<rparr>)"

definition on_done :: "completion \<Rightarrow> sidebar \<Rightarrow> sidebar" where
  "on_done c s =
     (if got_req_id c \<noteq> sb_req_id s then s
      else s\<lparr>main_queue := main_queue s @ [c]\<rparr>)"

text \<open>
  The events the widget reacts to: a selection notification, a worker's \<open>finish\<close>
  calling \<open>on_done\<close>, the host running the next queued main-thread callable, and
  \<open>d\<close> milliseconds passing (the armed timer fires once its time is used up).
\<close>

datatype event =
    XrefSelection "binary_view option" selection
  | WorkerDone completion
  | MainThread
  | Tick nat

fun step :: "event \<Rightarrow> sidebar \<Rightarrow> sidebar" where
  "step (XrefSelection frame sel) s = on_xref_selection frame sel s"
| "step (WorkerDone c) s = on_done c s"
| "step MainThread s =
     (case main_queue s of
        [] \<Rightarrow> s
      | c # cs \<Rightarrow> apply_done c (s\<lparr>main_queue := cs\<rparr>))"
| "step (Tick d) s =
     (case sb_timeout s of
        None \<Rightarrow> s
      | Some r \<Rightarrow>
          if r \<le> d then on_timeout (s\<lparr>sb_timeout := None\<rparr>)
          else s\<lparr>sb_timeout := Some (r - d)\<rparr>)"

fun run_events :: "event list \<Rightarrow> sidebar \<Rightarrow> sidebar" where
  "run_events [] s = s"
| "run_events (e # es) s = run_events es (step e s)"


definition shown :: "completion \<Rightarrow> ui_update" where
  "shown c = ShowDocs (got_req_id c) (func_name c) (c_syntax c) (c_desc c) (c_rv c)"

definition docs_of :: "ui_update list \<Rightarrow> ui_update list" where
  "docs_of us = filter (\<lambda>u. u \<noteq> ShowTimeout) us"

definition after_issue :: "completion \<Rightarrow> completion \<Rightarrow> event \<Rightarrow> bool" where
  "after_issue c1 c2 e =
     (case e of
        WorkerDone c \<Rightarrow> c = c1 \<or> c = c2
      | MainThread \<Rightarrow> True
      | Tick d \<Rightarrow> True
      | XrefSelection frame sel \<Rightarrow> False)"


text \<open>A selection whose function carries an imported-function symbol of the given name.\<close>

definition import_selection :: "string \<Rightarrow> selection" where
  "import_selection n =
     \<lparr>sel_func_symbol = Some \<lparr>sym_type = ImportedFunctionSymbol, sym_name = n\<rparr>,
      addrValid = False, offset = 0, start = 0\<rparr>"


text \<open>Every update in a log is the timeout text or the documentation of a successful \<open>c\<close>.\<close>

definition only_from :: "completion \<Rightarrow> ui_update list \<Rightarrow> bool" where
  "only_from c us = list_all (\<lambda>u. u = ShowTimeout \<or> (c_success c \<and> u = shown c)) us"


section \<open>Python values, exceptions and the outside world\<close>

text \<open>
  The values \<open>json.load\<close> returns. An object is a Python \<open>dict\<close>: its keys are
  distinct and kept in insertion order. Numbers are integers here: the program only
  tests a number for truth, and every nonzero number is true.
\<close>

datatype json =
    JNull
  | JBool bool
  | JNum int
  | JStr string
  | JArr "json list"
  | JObj "(string \<times> json) list"

fun truthy :: "json \<Rightarrow> bool" where
  "truthy JNull = False"
| "truthy (JBool b) = b"
| "truthy (JNum n) = (n \<noteq> 0)"
| "truthy (JStr t) = (t \<noteq> [])"
| "truthy (JArr xs) = (xs \<noteq> [])"
| "truthy (JObj kvs) = (kvs \<noteq> [])"

definition py_or :: "json \<Rightarrow> json \<Rightarrow> json" where
  "py_or a b = (if truthy a then a else b)"

datatype exn = RequestError | OSError | AttributeError | TypeError

definition obj_get :: "(string \<times> json) list \<Rightarrow> string \<Rightarrow> json \<Rightarrow> json" where
  "obj_get kvs k dflt = (case map_of kvs k of None \<Rightarrow> dflt | Some v \<Rightarrow> v)"

text \<open>\<open>obj.get(k, dflt)\<close> and \<open>obj[k] = v\<close> on a value that may not be a dict.\<close>

definition dict_get :: "json \<Rightarrow> string \<Rightarrow> json \<Rightarrow> exn + json" where
  "dict_get obj k dflt =
     (case obj of JObj kvs \<Rightarrow> Inr (obj_get kvs k dflt) | _ \<Rightarrow> Inl AttributeError)"

definition dict_set :: "json \<Rightarrow> string \<Rightarrow> json \<Rightarrow> exn + json" where
  "dict_set obj k v =
     (case obj of JObj kvs \<Rightarrow> Inr (JObj (AList.update k v kvs)) | _ \<Rightarrow> Inl TypeError)"

text \<open>
  A path is a directory and a file name, so that \<open>os.path.dirname\<close> is the first
  component and \<open>os.path.join\<close> is pairing. A file holds the document it parses to,
  or \<open>Garbage\<close> when \<open>json.load\<close> raises on it (an empty or torn file, an unreadable
  one).
\<close>

type_synonym path = "string \<times> string"

definition dirname :: "path \<Rightarrow> string" where
  "dirname p = fst p"

datatype file_content = Garbage | Doc json

datatype fs_op =
    OpMakedirs string
  | OpCreate path
  | OpWrite path json
  | OpReplace path path
  | OpRemove path

datatype http_request = Search string | GetPage string

text \<open>
  The world a worker acts on: the files, and the logs of the file operations that
  took effect and of the HTTP requests sent.
\<close>

record world =
  files :: "path \<Rightarrow> file_content option"
  fs_ops :: "fs_op list"
  http_log :: "http_request list"

text \<open>
  What the file system does to one call of \<open>_atomic_write_json\<close>: which operations
  fail with \<open>OSError\<close>, and the random name parts \<open>mkstemp\<close> tries in turn.
\<close>

record io_faults =
  makedirs_fails :: bool
  temp_names :: "string list"
  dump_fails :: bool
  replace_fails :: bool
  remove_fails :: bool

section \<open>Atomic persistence (\<open>_atomic_write_json\<close>)\<close>

text \<open>\<open>tempfile.mkstemp\<close>: the first candidate name that does not exist in the directory.\<close>

fun mkstemp :: "string list \<Rightarrow> string \<Rightarrow> (path \<Rightarrow> file_content option) \<Rightarrow> path option" where
  "mkstemp [] d fs = None"
| "mkstemp (n # ns) d fs =
     (let p = (d, ''windoc_'' @ n @ ''.json'')
      in if fs p = None then Some p else mkstemp ns d fs)"

definition os_replace :: "path \<Rightarrow> path \<Rightarrow> world \<Rightarrow> world" where
  "os_replace src dst w =
     (if src = dst then w\<lparr>fs_ops := fs_ops w @ [OpReplace src dst]\<rparr>
      else w\<lparr>files := ((files w)(dst := files w src))(src := None),
             fs_ops := fs_ops w @ [OpReplace src dst]\<rparr>)"

text \<open>The body of the \<open>try\<close>: dump into the temporary file, then replace.\<close>

definition write_and_replace ::
    "io_faults \<Rightarrow> path \<Rightarrow> path \<Rightarrow> json \<Rightarrow> world \<Rightarrow> exn option \<times> world" where
  "write_and_replace io tmp target obj w =
     (if dump_fails io then (Some OSError, w)
      else
        (let w1 = w\<lparr>files := (files w)(tmp \<mapsto> Doc obj), fs_ops := fs_ops w @ [OpWrite tmp obj]\<rparr>
         in if replace_fails io then (Some OSError, w1)
            else (None, os_replace tmp target w1)))"

text \<open>The body of the inner \<open>try\<close> of the \<open>finally\<close> block, and the block itself.\<close>

definition remove_tmp :: "io_faults \<Rightarrow> path \<Rightarrow> world \<Rightarrow> exn option \<times> world" where
  "remove_tmp io tmp w =
     (if files w tmp \<noteq> None then
        (if remove_fails io then (Some OSError, w)
         else (None, w\<lparr>files := (files w)(tmp := None), fs_ops := fs_ops w @ [OpRemove tmp]\<rparr>))
      else (None, w))"

definition cleanup_tmp :: "io_faults \<Rightarrow> path \<Rightarrow> world \<Rightarrow> exn option \<times> world" where
  "cleanup_tmp io tmp w =
     (case remove_tmp io tmp w of
        (e, w') \<Rightarrow> (if e = Some OSError then None else e, w'))"

definition atomic_write_json :: "io_faults \<Rightarrow> path \<Rightarrow> json \<Rightarrow> world \<Rightarrow> exn option \<times> world" where
  "atomic_write_json io target obj w =
     (let d = dirname target
      in if makedirs_fails io then (Some OSError, w)
         else
           (let w0 = w\<lparr>fs_ops := fs_ops w @ [OpMakedirs d]\<rparr>
            in case mkstemp (temp_names io) d (files w0) of
                 None \<Rightarrow> (Some OSError, w0)
               | Some tmp \<Rightarrow>
                   (let w1 = w0\<lparr>files := (files w0)(tmp \<mapsto> Garbage),
                                fs_ops := fs_ops w0 @ [OpCreate tmp]\<rparr>
                    in case write_and_replace io tmp target obj w1 of
                         (e, w2) \<Rightarrow>
                           (case cleanup_tmp io tmp w2 of
                              (ce, w3) \<Rightarrow> (if ce \<noteq> None then ce else e, w3)))))"

section \<open>The documentation fetcher (\<open>MSFTLearnScrapper\<close>)\<close>

definition DOCS_HOST :: string where
  "DOCS_HOST = ''https://learn.microsoft.com''"

text \<open>One entry of the search response: \<open>res.get("title")\<close> and \<open>res.get("url")\<close>.\<close>

record search_hit =
  hit_title :: "string option"
  hit_url :: "string option"

text \<open>
  The parsed page, as far as the accessors read it: the content of the
  \<open>og:description\<close> meta element (if there is one with content); every \<open>h2\<close> with
  its stripped text, the text of the next \<open>pre\<close> and of the next element (if any);
  and every \<open>p\<close> with the text of the \<open>h2\<close> before it (if any) and its own text.
\<close>

record h2_section =
  h2_text :: string
  next_pre :: "string option"
  next_element :: "string option"

record soup_page =
  og_description :: "string option"
  h2_list :: "h2_section list"
  p_list :: "(string option \<times> string) list"

text \<open>The network: \<open>None\<close> is a request that raises.\<close>

record network =
  search_api :: "string \<Rightarrow> search_hit list option"
  page_at :: "string \<Rightarrow> soup_page option"

record scrapper =
  requested_name :: string
  resolved_name :: "string option"
  soup :: "soup_page option"
  h2_titles :: "(string \<times> string list) list"

text \<open>The loop of \<open>_init_from_name\<close> over the search results.\<close>

fun select_url :: "string \<Rightarrow> search_hit list \<Rightarrow> string option" where
  "select_url name [] = None"
| "select_url name (res # rest) =
     (let title = strip (case hit_title res of None \<Rightarrow> [] | Some t \<Rightarrow> t);
          candidate_url = strip (case hit_url res of None \<Rightarrow> [] | Some u \<Rightarrow> u)
      in if candidate_url = [] then select_url name rest
         else
           (let candidate_url = (if startswith candidate_url ''/''
                                 then DOCS_HOST @ candidate_url else candidate_url)
            in if \<not> contains ''/windows/win32/api/'' candidate_url then select_url name rest
               else if \<not> startswith title name then select_url name rest
               else if length name < length title \<and> islower (title ! length name)
                    then select_url name rest
               else Some candidate_url))"

definition add_paragraph ::
    "(string \<times> string list) list \<Rightarrow> string option \<times> string \<Rightarrow> (string \<times> string list) list" where
  "add_paragraph tbl p =
     (case fst p of
        None \<Rightarrow> tbl
      | Some key \<Rightarrow>
          if snd p = [] then tbl
          else AList.update key
                 ((case map_of tbl key of None \<Rightarrow> [] | Some ts \<Rightarrow> ts) @ [snd p]) tbl)"

definition init_from_name ::
    "network \<Rightarrow> string \<Rightarrow> scrapper \<Rightarrow> world \<Rightarrow> exn option \<times> scrapper \<times> world" where
  "init_from_name net name scr w =
     (let w1 = w\<lparr>http_log := http_log w @ [Search name]\<rparr>
      in case search_api net name of
           None \<Rightarrow> (Some RequestError, scr, w1)
         | Some results \<Rightarrow>
             if results = [] then (None, scr, w1)
             else
               (case select_url name results of
                  None \<Rightarrow> (None, scr, w1)
                | Some url \<Rightarrow>
                    if url = [] then (None, scr, w1)
                    else
                      (let w2 = w1\<lparr>http_log := http_log w1 @ [GetPage url]\<rparr>
                       in case page_at net url of
                            None \<Rightarrow> (Some RequestError, scr, w2)
                          | Some pg \<Rightarrow>
                              (None,
                               scr\<lparr>soup := Some pg,
                                   h2_titles := foldl add_paragraph [] (p_list pg)\<rparr>,
                               w2))))"

text \<open>The constructor: the exact name first, then the name without its A or W.\<close>

definition MSFTLearnScrapper :: "network \<Rightarrow> string \<Rightarrow> world \<Rightarrow> (exn + scrapper) \<times> world" where
  "MSFTLearnScrapper net function w =
     (let scr0 = \<lparr>requested_name = function, resolved_name = None, soup = None, h2_titles = []\<rparr>
      in case init_from_name net function scr0 w of
           (Some e, scr1, w1) \<Rightarrow> (Inl e, w1)
         | (None, scr1, w1) \<Rightarrow>
             if soup scr1 \<noteq> None then (Inr (scr1\<lparr>resolved_name := Some function\<rparr>), w1)
             else if function \<noteq> [] \<and> (last function = CHR ''A'' \<or> last function = CHR ''W'')
             then
               (let base = butlast function
                in case init_from_name net base scr1 w1 of
                     (Some e, scr2, w2) \<Rightarrow> (Inl e, w2)
                   | (None, scr2, w2) \<Rightarrow>
                       if soup scr2 \<noteq> None then
                         (if last function = CHR ''A''
                          then (Inr (scr2\<lparr>resolved_name := Some (base @ ''W'')\<rparr>), w2)
                          else (Inr (scr2\<lparr>resolved_name := Some function\<rparr>), w2))
                       else (Inr scr2, w2))
             else (Inr scr1, w1))"

fun syntax_of_h2s :: "h2_section list \<Rightarrow> string option" where
  "syntax_of_h2s [] = None"
| "syntax_of_h2s (h # hs) =
     (if h2_text h = ''Syntax''
      then (case next_pre h of Some t \<Rightarrow> Some t | None \<Rightarrow> next_element h)
      else syntax_of_h2s hs)"

definition get_syntax :: "scrapper \<Rightarrow> string option" where
  "get_syntax scr = (case soup scr of None \<Rightarrow> None | Some pg \<Rightarrow> syntax_of_h2s (h2_list pg))"

definition found_function_docs :: "scrapper \<Rightarrow> bool" where
  "found_function_docs scr = (get_syntax scr \<noteq> None)"

definition resolution_note :: "scrapper \<Rightarrow> string" where
  "resolution_note scr =
     (case resolved_name scr of
        None \<Rightarrow> []
      | Some r \<Rightarrow>
          if r \<noteq> [] \<and> r \<noteq> requested_name scr
          then ''[Docs resolved to: '' @ r @ '' (requested: '' @ requested_name scr @ '')]''
               @ [CHR 0x0A, CHR 0x0A]
          else [])"

definition get_description :: "scrapper \<Rightarrow> bool \<Rightarrow> string" where
  "get_description scr check =
     (case soup scr of
        None \<Rightarrow> ''No Win32 docs found for '' @ requested_name scr
      | Some pg \<Rightarrow>
          if check \<and> get_syntax scr = None then []
          else
            (let base_desc = (case og_description pg of None \<Rightarrow> [] | Some t \<Rightarrow> t)
             in resolution_note scr @ base_desc))"

definition get_return_value :: "scrapper \<Rightarrow> string list option" where
  "get_return_value scr = map_of (h2_titles scr) ''Return value''"

section \<open>The lookup worker (\<open>ScrapperThread\<close>)\<close>

record worker =
  wk_function_name :: string
  wk_req_id :: int
  wk_cache_file :: path
  wk_success :: bool
  wk_syntax :: json
  wk_description :: json
  wk_return_value :: json

definition ScrapperThread_init :: "string \<Rightarrow> int \<Rightarrow> path \<Rightarrow> worker" where
  "ScrapperThread_init function_name req_id cache_file =
     \<lparr>wk_function_name = function_name, wk_req_id = req_id, wk_cache_file = cache_file,
      wk_success = False, wk_syntax = JStr [], wk_description = JStr [],
      wk_return_value = JStr []\<rparr>"

fun join :: "string \<Rightarrow> string list \<Rightarrow> string" where
  "join sep [] = []"
| "join sep [x] = x"
| "join sep (x # y # ys) = x @ sep @ join sep (y # ys)"

text \<open>Reading the cache file: a missing, unreadable or falsy document is \<open>{}\<close>.\<close>

definition load_cache :: "path \<Rightarrow> world \<Rightarrow> json" where
  "load_cache p w =
     (case files w p of
        None \<Rightarrow> JObj []
      | Some Garbage \<Rightarrow> JObj []
      | Some (Doc j) \<Rightarrow> py_or j (JObj []))"

text \<open>
  The test of the cached entry: \<open>Some\<close> is the worker at the \<open>return\<close> inside the
  \<open>isinstance\<close> branch, \<open>None\<close> falls through to the network.
\<close>

definition read_cached :: "json \<Rightarrow> worker \<Rightarrow> worker option" where
  "read_cached entry wk =
     (case entry of
        JObj kvs \<Rightarrow>
          if obj_get kvs ''found'' JNull = JBool False then Some (wk\<lparr>wk_success := False\<rparr>)
          else if obj_get kvs ''found'' JNull = JBool True then
            Some (wk\<lparr>wk_success := True,
                     wk_syntax := py_or (obj_get kvs ''syntax'' (JStr [])) (JStr []),
                     wk_description := py_or (obj_get kvs ''description'' (JStr [])) (JStr []),
                     wk_return_value := py_or (obj_get kvs ''return_value'' (JStr [])) (JStr [])\<rparr>)
          else None
      | _ \<Rightarrow> None)"

text \<open>The \<open>try\<close> block that queries the documentation site.\<close>

definition query_docs :: "network \<Rightarrow> worker \<Rightarrow> world \<Rightarrow> worker \<times> world" where
  "query_docs net wk w =
     (case MSFTLearnScrapper net (wk_function_name wk) w of
        (Inl e, w1) \<Rightarrow> (wk\<lparr>wk_success := False\<rparr>, w1)
      | (Inr scr, w1) \<Rightarrow>
          if soup scr = None \<or> \<not> found_function_docs scr then (wk\<lparr>wk_success := False\<rparr>, w1)
          else
            (wk\<lparr>wk_success := True,
                wk_syntax := JStr (case get_syntax scr of None \<Rightarrow> [] | Some t \<Rightarrow> t),
                wk_description := JStr (get_description scr True),
                wk_return_value :=
                  JStr (strip (join [CHR 0x0A]
                    (case get_return_value scr of None \<Rightarrow> [] | Some ps \<Rightarrow> ps)))\<rparr>,
             w1))"

definition cache_entry :: "worker \<Rightarrow> json" where
  "cache_entry wk =
     JObj [(''found'', JBool (wk_success wk)), (''syntax'', wk_syntax wk),
           (''description'', wk_description wk), (''return_value'', wk_return_value wk)]"

definition run :: "network \<Rightarrow> io_faults \<Rightarrow> worker \<Rightarrow> world \<Rightarrow> exn option \<times> worker \<times> world" where
  "run net io wk w =
     (if wk_function_name wk = [] then (None, wk, w)
      else
        (case dict_get (load_cache (wk_cache_file wk) w) (wk_function_name wk) JNull of
           Inl e \<Rightarrow> (Some e, wk, w)
         | Inr entry \<Rightarrow>
             (case read_cached entry wk of
                Some wk' \<Rightarrow> (None, wk', w)
              | None \<Rightarrow>
                  (case query_docs net wk w of
                     (wk1, w1) \<Rightarrow>
                       (case dict_set (load_cache (wk_cache_file wk) w1)
                               (wk_function_name wk) (cache_entry wk1) of
                          Inl e \<Rightarrow> (Some e, wk1, w1)
                        | Inr cache \<Rightarrow>
                            (case atomic_write_json io (wk_cache_file wk) cache w1 of
                               (e, w2) \<Rightarrow> (e, wk1, w2)))))))"


section \<open>The selection rule and the entry shape, in the specification's words\<close>

definition entry_title :: "search_hit \<Rightarrow> string" where
  "entry_title res = strip (case hit_title res of None \<Rightarrow> [] | Some t \<Rightarrow> t)"

definition entry_url :: "search_hit \<Rightarrow> string" where
  "entry_url res = strip (case hit_url res of None \<Rightarrow> [] | Some u \<Rightarrow> u)"

text \<open>A URL that starts with a slash is resolved against the documentation host.\<close>

definition resolved_url :: "search_hit \<Rightarrow> string" where
  "resolved_url res =
     (if startswith (entry_url res) ''/'' then DOCS_HOST @ entry_url res else entry_url res)"

text \<open>
  An entry qualifies when it has a URL, the URL falls under the API documentation
  path, the title starts with the candidate name, and the character after the
  matched prefix, if the title is longer, is not a lowercase letter.
\<close>

definition spec_qualifies :: "string \<Rightarrow> search_hit \<Rightarrow> bool" where
  "spec_qualifies name res =
     (entry_url res \<noteq> [] \<and>
      contains ''/windows/win32/api/'' (resolved_url res) \<and>
      startswith (entry_title res) name \<and>
      (length (entry_title res) \<le> length name \<or> \<not> islower (entry_title res ! length name)))"

definition spec_select :: "string \<Rightarrow> search_hit list \<Rightarrow> string option" where
  "spec_select name results = map_option resolved_url (find (spec_qualifies name) results)"

text \<open>
  A cache entry is well formed when it is an object whose \<open>found\<close> field is exactly
  \<open>true\<close> or exactly \<open>false\<close>.
\<close>

definition well_formed_entry :: "json \<Rightarrow> bool" where
  "well_formed_entry entry =
     (case entry of
        JObj kvs \<Rightarrow>
          obj_get kvs ''found'' JNull = JBool True \<or> obj_get kvs ''found'' JNull = JBool False
      | _ \<Rightarrow> False)"

definition negative_entry :: json where
  "negative_entry =
     JObj [(''found'', JBool False), (''syntax'', JStr []), (''description'', JStr []),
           (''return_value'', JStr [])]"


text \<open>
  While generation \<open>g\<close> is current and its worker has not reported: time passes, the
  host runs main-thread callables, and workers of other generations report.
\<close>

definition idle_event :: "int \<Rightarrow> event \<Rightarrow> bool" where
  "idle_event g e =
     (case e of
        XrefSelection frame sel \<Rightarrow> False
      | WorkerDone c \<Rightarrow> got_req_id c \<noteq> g
      | MainThread \<Rightarrow> True
      | Tick d \<Rightarrow> True)"

text \<open>The milliseconds that pass during a list of events.\<close>

fun elapsed :: "event list \<Rightarrow> nat" where
  "elapsed [] = 0"
| "elapsed (e # es) = (case e of Tick d \<Rightarrow> d | _ \<Rightarrow> 0) + elapsed es"

section \<open>Properties of the normalizer and of rejected names\<close>

lemma local_name_starts_nothing:
  "looks_like_local (candidate_name bv sel) \<Longrightarrow>
   on_xref_selection (Some bv) sel s = (cancel_worker s)\<lparr>sb_req_id := sb_req_id s + 1\<rparr>"
  by (simp add: on_xref_selection_def Let_def cancel_worker_def drop_worker_def split: option.splits)

lemma cancel_worker_frame:
  "sb_worker (cancel_worker s) = None \<and> sb_timeout (cancel_worker s) = None \<and>
   started (cancel_worker s) = started s \<and> ui_log (cancel_worker s) = ui_log s \<and>
   main_queue (cancel_worker s) = main_queue s \<and> sb_req_id (cancel_worker s) = sb_req_id s \<and>
   ui_function (cancel_worker s) = ui_function s \<and> ui_syntax (cancel_worker s) = ui_syntax s \<and>
   ui_description (cancel_worker s) = ui_description s \<and> ui_retval (cancel_worker s) = ui_retval s"
  by (simp add: cancel_worker_def drop_worker_def split: option.splits)

text \<open>
  Claim C5. The normalizer maps \<open>KERNEL32.dll!GetProcAddress\<close>, \<open>__imp_GetProcAddress\<close>
  and \<open>_GetProcAddress@8\<close> to \<open>GetProcAddress\<close>; \<open>looks_like_local\<close> holds of
  \<open>sub_401000\<close>, of the empty string and of every name with a local prefix; and for a
  candidate name that looks local the coordinator starts no worker, arms no timer,
  queues nothing and leaves the log of UI updates and the four labels as they were.
\<close>

theorem normalizer_table:
  "normalize_symbol_name ''KERNEL32.dll!GetProcAddress'' = ''GetProcAddress'' \<and>
   normalize_symbol_name ''__imp_GetProcAddress'' = ''GetProcAddress'' \<and>
   normalize_symbol_name ''_GetProcAddress@8'' = ''GetProcAddress'' \<and>
   looks_like_local ''sub_401000'' \<and>
   looks_like_local [] \<and> looks_like_local (''sub_'' @ rest) \<and> looks_like_local (''j_sub_'' @ rest) \<and>
   (looks_like_local (candidate_name bv sel) \<longrightarrow>
      sb_worker (on_xref_selection (Some bv) sel s) = None \<and>
      sb_timeout (on_xref_selection (Some bv) sel s) = None \<and>
      started (on_xref_selection (Some bv) sel s) = started s \<and>
      main_queue (on_xref_selection (Some bv) sel s) = main_queue s \<and>
      ui_log (on_xref_selection (Some bv) sel s) = ui_log s \<and>
      ui_function (on_xref_selection (Some bv) sel s) = ui_function s \<and>
      ui_syntax (on_xref_selection (Some bv) sel s) = ui_syntax s \<and>
      ui_description (on_xref_selection (Some bv) sel s) = ui_description s \<and>
      ui_retval (on_xref_selection (Some bv) sel s) = ui_retval s)"
proof -
  have n1: "normalize_symbol_name ''KERNEL32.dll!GetProcAddress'' = ''GetProcAddress''"
    by code_simp
  have n2: "normalize_symbol_name ''__imp_GetProcAddress'' = ''GetProcAddress''"
    by code_simp
  have n3: "normalize_symbol_name ''_GetProcAddress@8'' = ''GetProcAddress''"
    by code_simp
  have l1: "looks_like_local ''sub_401000''"
    by (simp add: looks_like_local_def startswith_def)
  have l2: "looks_like_local [] \<and> looks_like_local (''sub_'' @ rest) \<and>
            looks_like_local (''j_sub_'' @ rest)"
    by (simp add: looks_like_local_def startswith_def)
  show ?thesis
    using n1 n2 n3 l1 l2 by (simp add: local_name_starts_nothing cancel_worker_frame)
qed

theorem normalizer_table_witness:
  "looks_like_local (candidate_name (\<lambda>a. None) (import_selection ''sub_401000'')) \<and>
   sb_worker (on_xref_selection (Some (\<lambda>a. None)) (import_selection ''sub_401000'')
                WinDocSidebar_init) = None \<and>
   started (on_xref_selection (Some (\<lambda>a. None)) (import_selection ''sub_401000'')
              WinDocSidebar_init) = [] \<and>
   ui_log (on_xref_selection (Some (\<lambda>a. None)) (import_selection ''sub_401000'')
             WinDocSidebar_init) = []"
proof -
  have h: "looks_like_local (candidate_name (\<lambda>a. None) (import_selection ''sub_401000''))"
    by code_simp
  show ?thesis
    using h normalizer_table [of "[]" "\<lambda>a. None" "import_selection ''sub_401000''"
        WinDocSidebar_init]
    by (simp add: WinDocSidebar_init_def)
qed

section \<open>Properties of the coordinator\<close>

lemma drop_worker_frame:
  "sb_req_id (drop_worker s) = sb_req_id s \<and> main_queue (drop_worker s) = main_queue s \<and>
   ui_log (drop_worker s) = ui_log s \<and> sb_timeout (drop_worker s) = sb_timeout s \<and>
   ui_function (drop_worker s) = ui_function s \<and> ui_syntax (drop_worker s) = ui_syntax s \<and>
   ui_description (drop_worker s) = ui_description s \<and> ui_retval (drop_worker s) = ui_retval s \<and>
   sb_worker (drop_worker s) = None"
  by (simp add: drop_worker_def split: option.splits)

lemma on_timeout_frame:
  "sb_req_id (on_timeout s) = sb_req_id s \<and> main_queue (on_timeout s) = main_queue s \<and>
   ui_log (on_timeout s) = ui_log s @ [ShowTimeout] \<and> sb_timeout (on_timeout s) = sb_timeout s \<and>
   ui_function (on_timeout s) = ui_function s \<and> ui_syntax (on_timeout s) = timeout_text \<and>
   ui_description (on_timeout s) = ui_description s \<and> ui_retval (on_timeout s) = ui_retval s \<and>
   sb_worker (on_timeout s) = None"
  by (simp add: on_timeout_def Let_def drop_worker_frame)

lemma tick_fires:
  "sb_timeout s = Some r \<Longrightarrow> r \<le> d \<Longrightarrow> step (Tick d) s = on_timeout (s\<lparr>sb_timeout := None\<rparr>)"
  by simp

text \<open>
  Claim C10. When the armed timer fires, the syntax label is set to
  \<open>Timed out while fetching docs.\<close> and the function-name, description and
  return-value labels keep the text they had.
\<close>

theorem timeout_overwrites_only_syntax:
  "sb_timeout s = Some r \<Longrightarrow> r \<le> d \<Longrightarrow>
   ui_syntax (step (Tick d) s) = ''Timed out while fetching docs.'' \<and>
   ui_function (step (Tick d) s) = ui_function s \<and>
   ui_description (step (Tick d) s) = ui_description s \<and>
   ui_retval (step (Tick d) s) = ui_retval s \<and>
   ui_log (step (Tick d) s) = ui_log s @ [ShowTimeout]"
  by (simp only: tick_fires on_timeout_frame) (simp add: timeout_text_def)

theorem timeout_overwrites_only_syntax_witness:
  "sb_timeout (run_events
      [XrefSelection (Some (\<lambda>a. None)) (import_selection ''Beep''),
       WorkerDone \<lparr>got_req_id = 1, func_name = ''Beep'', c_success = True,
                   c_syntax = ''BOOL Beep(DWORD f, DWORD d);'', c_desc = ''Makes a sound.'',
                   c_rv = ''Nonzero on success.''\<rparr>,
       MainThread,
       XrefSelection (Some (\<lambda>a. None)) (import_selection ''Sleep'')]
      WinDocSidebar_init) = Some 4000 \<and>
   (let s = step (Tick 4000) (run_events
      [XrefSelection (Some (\<lambda>a. None)) (import_selection ''Beep''),
       WorkerDone \<lparr>got_req_id = 1, func_name = ''Beep'', c_success = True,
                   c_syntax = ''BOOL Beep(DWORD f, DWORD d);'', c_desc = ''Makes a sound.'',
                   c_rv = ''Nonzero on success.''\<rparr>,
       MainThread,
       XrefSelection (Some (\<lambda>a. None)) (import_selection ''Sleep'')]
      WinDocSidebar_init)
    in ui_function s = ''Beep'' \<and> ui_syntax s = ''Timed out while fetching docs.'' \<and>
       ui_description s = ''Makes a sound.'' \<and> ui_retval s = ''Nonzero on success.'')"
proof -
  let ?s = "run_events
      [XrefSelection (Some (\<lambda>a. None)) (import_selection ''Beep''),
       WorkerDone \<lparr>got_req_id = 1, func_name = ''Beep'', c_success = True,
                   c_syntax = ''BOOL Beep(DWORD f, DWORD d);'', c_desc = ''Makes a sound.'',
                   c_rv = ''Nonzero on success.''\<rparr>,
       MainThread,
       XrefSelection (Some (\<lambda>a. None)) (import_selection ''Sleep'')]
      WinDocSidebar_init"
  have t: "sb_timeout ?s = Some 4000"
    by code_simp
  have f: "ui_function ?s = ''Beep'' \<and> ui_description ?s = ''Makes a sound.'' \<and>
           ui_retval ?s = ''Nonzero on success.''"
    by code_simp
  show ?thesis
    using t f timeout_overwrites_only_syntax [of ?s 4000 4000]
    by (simp add: Let_def)
qed

subsection \<open>Stale completions\<close>

lemma on_done_stale: "got_req_id c \<noteq> sb_req_id s \<Longrightarrow> on_done c s = s"
  by (simp add: on_done_def)

lemma on_done_current:
  "got_req_id c = sb_req_id s \<Longrightarrow> on_done c s = s\<lparr>main_queue := main_queue s @ [c]\<rparr>"
  by (simp add: on_done_def)

lemma step_tick_effect:
  "sb_req_id (step (Tick d) s) = sb_req_id s \<and> main_queue (step (Tick d) s) = main_queue s \<and>
   started (step (Tick d) s) = started s \<and>
   (ui_log (step (Tick d) s) = ui_log s \<or> ui_log (step (Tick d) s) = ui_log s @ [ShowTimeout])"
  by (cases "sb_timeout s") (simp_all add: on_timeout_frame on_timeout_def Let_def drop_worker_def
      split: option.splits)

lemma step_main_nil: "main_queue s = [] \<Longrightarrow> step MainThread s = s"
  by simp

lemma step_main_cons:
  "main_queue s = c # cs \<Longrightarrow>
   sb_req_id (step MainThread s) = sb_req_id s \<and> main_queue (step MainThread s) = cs \<and>
   started (step MainThread s) = started s \<and>
   ui_log (step MainThread s) = ui_log s @ (if c_success c then [shown c] else [])"
  by (simp add: apply_done_def Let_def shown_def)

lemma docs_of_append: "docs_of (xs @ ys) = docs_of xs @ docs_of ys"
  by (simp add: docs_of_def)

lemma only_from_append: "only_from c (xs @ ys) = (only_from c xs \<and> only_from c ys)"
  by (simp add: only_from_def)

lemma after_issue_invariant:
  assumes diff: "got_req_id c1 \<noteq> got_req_id c2"
  shows "sb_req_id s = got_req_id c2 \<Longrightarrow> list_all (after_issue c1 c2) es \<Longrightarrow>
     set (main_queue s) \<subseteq> {c2} \<Longrightarrow> ui_log s = base @ new \<Longrightarrow> only_from c2 new \<Longrightarrow>
     length (main_queue s) + length (docs_of new) + count_list es (WorkerDone c2) \<le> 1 \<Longrightarrow>
     \<exists>new'. ui_log (run_events es s) = base @ new' \<and> only_from c2 new' \<and>
            length (docs_of new') \<le> 1 \<and> started (run_events es s) = started s"
proof (induction es arbitrary: s new)
  case Nil
  then show ?case by auto
next
  case (Cons e es)
  from Cons.prems(2) have allowed: "after_issue c1 c2 e" and rest: "list_all (after_issue c1 c2) es"
    by simp_all
  show ?case
  proof (cases e)
    case (XrefSelection frame sel)
    with allowed show ?thesis by (simp add: after_issue_def)
  next
    case (WorkerDone c)
    with allowed have c12: "c = c1 \<or> c = c2" by (simp add: after_issue_def)
    show ?thesis
    proof (cases "c = c2")
      case True
      let ?s = "s\<lparr>main_queue := main_queue s @ [c2]\<rparr>"
      have st: "step e s = ?s"
        using WorkerDone True Cons.prems(1) by (simp add: on_done_current)
      have cnt: "count_list (e # es) (WorkerDone c2) = count_list es (WorkerDone c2) + 1"
        using WorkerDone True by simp
      have q: "main_queue s = []" and d: "docs_of new = []"
        using Cons.prems(6) cnt by auto
      have "\<exists>new'. ui_log (run_events es ?s) = base @ new' \<and> only_from c2 new' \<and>
            length (docs_of new') \<le> 1 \<and> started (run_events es ?s) = started ?s"
      proof (rule Cons.IH [of ?s new])
        show "sb_req_id ?s = got_req_id c2" using Cons.prems(1) by simp
        show "list_all (after_issue c1 c2) es" by (rule rest)
        show "set (main_queue ?s) \<subseteq> {c2}" using q by simp
        show "ui_log ?s = base @ new" using Cons.prems(4) by simp
        show "only_from c2 new" by (rule Cons.prems(5))
        show "length (main_queue ?s) + length (docs_of new) + count_list es (WorkerDone c2) \<le> 1"
          using Cons.prems(6) cnt q d by simp
      qed
      then show ?thesis using st by simp
    next
      case False
      with c12 have c1: "c = c1" by simp
      have st: "step e s = s"
        using WorkerDone c1 diff Cons.prems(1) by (simp add: on_done_stale)
      have cnt: "count_list (e # es) (WorkerDone c2) = count_list es (WorkerDone c2)"
        using WorkerDone False by simp
      have "\<exists>new'. ui_log (run_events es s) = base @ new' \<and> only_from c2 new' \<and>
            length (docs_of new') \<le> 1 \<and> started (run_events es s) = started s"
        using Cons.IH [of s new] Cons.prems rest cnt by simp
      then show ?thesis using st by simp
    qed
  next
    case MainThread
    have cnt: "count_list (e # es) (WorkerDone c2) = count_list es (WorkerDone c2)"
      using MainThread by simp
    show ?thesis
    proof (cases "main_queue s")
      case Nil
      have st: "step e s = s" using MainThread Nil by simp
      have "\<exists>new'. ui_log (run_events es s) = base @ new' \<and> only_from c2 new' \<and>
            length (docs_of new') \<le> 1 \<and> started (run_events es s) = started s"
        using Cons.IH [of s new] Cons.prems rest cnt by simp
      then show ?thesis using st by simp
    next
      case (Cons c cs)
      have cc: "c = c2" and cs: "cs = []"
        using Cons Cons.prems(3) Cons.prems(6) by auto
      let ?s = "step MainThread s"
      let ?d = "if c_success c2 then [shown c2] else []"
      have eff: "sb_req_id ?s = sb_req_id s \<and> main_queue ?s = [] \<and> started ?s = started s \<and>
                 ui_log ?s = ui_log s @ ?d"
        using step_main_cons [OF Cons] cc cs by simp
      have d0: "docs_of new = []" using Cons Cons.prems(6) by simp
      have dd: "length (docs_of ?d) \<le> 1 \<and> only_from c2 ?d"
        by (simp add: docs_of_def only_from_def)
      have cz: "count_list es (WorkerDone c2) = 0"
        using Cons Cons.prems(6) cnt by simp
      have "\<exists>new'. ui_log (run_events es ?s) = base @ new' \<and> only_from c2 new' \<and>
            length (docs_of new') \<le> 1 \<and> started (run_events es ?s) = started ?s"
      proof (rule Cons.IH [of ?s "new @ ?d"])
        show "sb_req_id ?s = got_req_id c2" using eff Cons.prems(1) by simp
        show "list_all (after_issue c1 c2) es" by (rule rest)
        show "set (main_queue ?s) \<subseteq> {c2}" using eff by simp
        show "ui_log ?s = base @ new @ ?d" using eff Cons.prems(4) by simp
        show "only_from c2 (new @ ?d)"
          using Cons.prems(5) dd by (simp add: only_from_append)
        show "length (main_queue ?s) + length (docs_of (new @ ?d)) +
              count_list es (WorkerDone c2) \<le> 1"
          using eff d0 dd cz by (simp add: docs_of_append)
      qed
      then show ?thesis using MainThread eff by simp
    qed
  next
    case (Tick d)
    have cnt: "count_list (e # es) (WorkerDone c2) = count_list es (WorkerDone c2)"
      using Tick by simp
    let ?s = "step (Tick d) s"
    from step_tick_effect [of d s]
    have eff: "sb_req_id ?s = sb_req_id s \<and> main_queue ?s = main_queue s \<and>
               started ?s = started s" and
         lg: "ui_log ?s = ui_log s \<or> ui_log ?s = ui_log s @ [ShowTimeout]"
      by simp_all
    then obtain dl where dl: "ui_log ?s = ui_log s @ dl" "dl = [] \<or> dl = [ShowTimeout]"
      by auto
    have dd: "docs_of dl = [] \<and> only_from c2 dl"
      using dl(2) by (auto simp: docs_of_def only_from_def)
    have "\<exists>new'. ui_log (run_events es ?s) = base @ new' \<and> only_from c2 new' \<and>
          length (docs_of new') \<le> 1 \<and> started (run_events es ?s) = started ?s"
    proof (rule Cons.IH [of ?s "new @ dl"])
      show "sb_req_id ?s = got_req_id c2" using eff Cons.prems(1) by simp
      show "list_all (after_issue c1 c2) es" by (rule rest)
      show "set (main_queue ?s) \<subseteq> {c2}" using eff Cons.prems(3) by simp
      show "ui_log ?s = base @ new @ dl" using dl(1) Cons.prems(4) by simp
      show "only_from c2 (new @ dl)"
        using Cons.prems(5) dd by (simp add: only_from_append)
      show "length (main_queue ?s) + length (docs_of (new @ dl)) +
            count_list es (WorkerDone c2) \<le> 1"
        using eff dd Cons.prems(6) cnt by (simp add: docs_of_append)
    qed
    then show ?thesis using Tick eff by simp
  qed
qed

lemma issue_effect:
  "\<not> looks_like_local (candidate_name bv sel) \<Longrightarrow>
   sb_req_id (on_xref_selection (Some bv) sel s) = sb_req_id s + 1 \<and>
   main_queue (on_xref_selection (Some bv) sel s) = main_queue s \<and>
   ui_log (on_xref_selection (Some bv) sel s) = ui_log s \<and>
   sb_timeout (on_xref_selection (Some bv) sel s) = Some 4000 \<and>
   sb_worker (on_xref_selection (Some bv) sel s) =
     Some \<lparr>wh_function_name = candidate_name bv sel, wh_req_id = sb_req_id s + 1\<rparr> \<and>
   started (on_xref_selection (Some bv) sel s) =
     started s @ [\<lparr>wh_function_name = candidate_name bv sel, wh_req_id = sb_req_id s + 1\<rparr>]"
  by (simp add: on_xref_selection_def Let_def cancel_worker_frame timer_ms_def)

text \<open>
  Claim C1. A completion whose generation differs from the coordinator's current one
  leaves the coordinator exactly as it was: nothing is queued for the main thread and
  no label is touched. Consequently, when a lookup for X and then a lookup for Y are
  issued and afterwards the workers report (the first any number of times, the second
  at most once), interleaved in any order with main-thread turns and timer ticks, the
  UI updates added are timeout texts and at most one documentation update, which is
  that of the second, successful completion.
\<close>

theorem stale_completion_discarded:
  "(got_req_id c \<noteq> sb_req_id s \<longrightarrow> on_done c s = s) \<and>
   (\<not> looks_like_local (candidate_name bvX selX) \<and>
    \<not> looks_like_local (candidate_name bvY selY) \<and>
    main_queue s0 = [] \<and>
    got_req_id c1 = sb_req_id s0 + 1 \<and> got_req_id c2 = sb_req_id s0 + 2 \<and>
    list_all (after_issue c1 c2) es \<and> count_list es (WorkerDone c2) \<le> 1 \<longrightarrow>
    (\<exists>new.
       ui_log (run_events (XrefSelection (Some bvX) selX # XrefSelection (Some bvY) selY # es) s0)
         = ui_log s0 @ new \<and>
       only_from c2 new \<and> length (docs_of new) \<le> 1 \<and> shown c1 \<notin> set new) \<and>
    started (run_events (XrefSelection (Some bvX) selX # XrefSelection (Some bvY) selY # es) s0)
      = started s0 @
          [\<lparr>wh_function_name = candidate_name bvX selX, wh_req_id = got_req_id c1\<rparr>,
           \<lparr>wh_function_name = candidate_name bvY selY, wh_req_id = got_req_id c2\<rparr>])"
proof (intro conjI impI)
  assume "got_req_id c \<noteq> sb_req_id s"
  then show "on_done c s = s" by (rule on_done_stale)
next
  assume h: "\<not> looks_like_local (candidate_name bvX selX) \<and>
    \<not> looks_like_local (candidate_name bvY selY) \<and>
    main_queue s0 = [] \<and>
    got_req_id c1 = sb_req_id s0 + 1 \<and> got_req_id c2 = sb_req_id s0 + 2 \<and>
    list_all (after_issue c1 c2) es \<and> count_list es (WorkerDone c2) \<le> 1"
  let ?s1 = "on_xref_selection (Some bvX) selX s0"
  let ?s2 = "on_xref_selection (Some bvY) selY ?s1"
  have e1: "sb_req_id ?s1 = sb_req_id s0 + 1 \<and> main_queue ?s1 = main_queue s0 \<and>
            ui_log ?s1 = ui_log s0 \<and>
            started ?s1 = started s0 @
              [\<lparr>wh_function_name = candidate_name bvX selX, wh_req_id = sb_req_id s0 + 1\<rparr>]"
    using h issue_effect [of bvX selX s0] by simp
  have e2: "sb_req_id ?s2 = sb_req_id ?s1 + 1 \<and> main_queue ?s2 = main_queue ?s1 \<and>
            ui_log ?s2 = ui_log ?s1 \<and>
            started ?s2 = started ?s1 @
              [\<lparr>wh_function_name = candidate_name bvY selY, wh_req_id = sb_req_id ?s1 + 1\<rparr>]"
    using h issue_effect [of bvY selY ?s1] by simp
  have diff: "got_req_id c1 \<noteq> got_req_id c2" using h by simp
  have inv: "\<exists>new'. ui_log (run_events es ?s2) = ui_log s0 @ new' \<and> only_from c2 new' \<and>
            length (docs_of new') \<le> 1 \<and> started (run_events es ?s2) = started ?s2"
  proof (rule after_issue_invariant [OF diff, of ?s2 es "ui_log s0" "[]"])
    show "sb_req_id ?s2 = got_req_id c2" using e1 e2 h by simp
    show "list_all (after_issue c1 c2) es" using h by simp
    show "set (main_queue ?s2) \<subseteq> {c2}" using e1 e2 h by simp
    show "ui_log ?s2 = ui_log s0 @ []" using e1 e2 by simp
    show "only_from c2 []" by (simp add: only_from_def)
    show "length (main_queue ?s2) + length (docs_of []) + count_list es (WorkerDone c2) \<le> 1"
      using e1 e2 h by (simp add: docs_of_def)
  qed
  then obtain new where new: "ui_log (run_events es ?s2) = ui_log s0 @ new" "only_from c2 new"
      "length (docs_of new) \<le> 1" and st: "started (run_events es ?s2) = started ?s2"
    by blast
  have "shown c1 \<noteq> shown c2" using diff by (simp add: shown_def)
  then have "shown c1 \<notin> set new"
    using new(2) by (auto simp: only_from_def list_all_iff shown_def)
  then show "\<exists>new.
       ui_log (run_events (XrefSelection (Some bvX) selX # XrefSelection (Some bvY) selY # es) s0)
         = ui_log s0 @ new \<and>
       only_from c2 new \<and> length (docs_of new) \<le> 1 \<and> shown c1 \<notin> set new"
    using new by auto
  show "started (run_events (XrefSelection (Some bvX) selX # XrefSelection (Some bvY) selY # es) s0)
      = started s0 @
          [\<lparr>wh_function_name = candidate_name bvX selX, wh_req_id = got_req_id c1\<rparr>,
           \<lparr>wh_function_name = candidate_name bvY selY, wh_req_id = got_req_id c2\<rparr>]"
    using st e1 e2 h by simp
qed

theorem stale_completion_discarded_witness:
  "got_req_id \<lparr>got_req_id = 1, func_name = ''Beep'', c_success = True, c_syntax = ''s1'',
                 c_desc = ''d1'', c_rv = ''r1''\<rparr>
     \<noteq> sb_req_id (run_events [XrefSelection (Some (\<lambda>a. None)) (import_selection ''Beep''),
                              XrefSelection (Some (\<lambda>a. None)) (import_selection ''Sleep'')]
                    WinDocSidebar_init) \<and>
   \<not> looks_like_local (candidate_name (\<lambda>a. None) (import_selection ''Beep'')) \<and>
   \<not> looks_like_local (candidate_name (\<lambda>a. None) (import_selection ''Sleep'')) \<and>
   list_all (after_issue
       \<lparr>got_req_id = 1, func_name = ''Beep'', c_success = True, c_syntax = ''s1'',
        c_desc = ''d1'', c_rv = ''r1''\<rparr>
       \<lparr>got_req_id = 2, func_name = ''Sleep'', c_success = True, c_syntax = ''s2'',
        c_desc = ''d2'', c_rv = ''r2''\<rparr>)
     [WorkerDone \<lparr>got_req_id = 1, func_name = ''Beep'', c_success = True, c_syntax = ''s1'',
                  c_desc = ''d1'', c_rv = ''r1''\<rparr>,
      MainThread, Tick 100,
      WorkerDone \<lparr>got_req_id = 2, func_name = ''Sleep'', c_success = True, c_syntax = ''s2'',
                  c_desc = ''d2'', c_rv = ''r2''\<rparr>,
      MainThread] \<and>
   ui_log (run_events
     [XrefSelection (Some (\<lambda>a. None)) (import_selection ''Beep''),
      XrefSelection (Some (\<lambda>a. None)) (import_selection ''Sleep''),
      WorkerDone \<lparr>got_req_id = 1, func_name = ''Beep'', c_success = True, c_syntax = ''s1'',
                  c_desc = ''d1'', c_rv = ''r1''\<rparr>,
      MainThread, Tick 100,
      WorkerDone \<lparr>got_req_id = 2, func_name = ''Sleep'', c_success = True, c_syntax = ''s2'',
                  c_desc = ''d2'', c_rv = ''r2''\<rparr>,
      MainThread] WinDocSidebar_init) = [ShowDocs 2 ''Sleep'' ''s2'' ''d2'' ''r2''] \<and>
   (\<exists>new. ui_log (run_events
     [XrefSelection (Some (\<lambda>a. None)) (import_selection ''Beep''),
      XrefSelection (Some (\<lambda>a. None)) (import_selection ''Sleep''),
      WorkerDone \<lparr>got_req_id = 1, func_name = ''Beep'', c_success = True, c_syntax = ''s1'',
                  c_desc = ''d1'', c_rv = ''r1''\<rparr>,
      MainThread, Tick 100,
      WorkerDone \<lparr>got_req_id = 2, func_name = ''Sleep'', c_success = True, c_syntax = ''s2'',
                  c_desc = ''d2'', c_rv = ''r2''\<rparr>,
      MainThread] WinDocSidebar_init) = new \<and> length (docs_of new) \<le> 1 \<and>
      ShowDocs 1 ''Beep'' ''s1'' ''d1'' ''r1'' \<notin> set new)"
proof -
  let ?c1 = "\<lparr>got_req_id = 1, func_name = ''Beep'', c_success = True, c_syntax = ''s1'',
              c_desc = ''d1'', c_rv = ''r1''\<rparr>"
  let ?c2 = "\<lparr>got_req_id = 2, func_name = ''Sleep'', c_success = True, c_syntax = ''s2'',
              c_desc = ''d2'', c_rv = ''r2''\<rparr>"
  let ?es = "[WorkerDone ?c1, MainThread, Tick 100, WorkerDone ?c2, MainThread]"
  let ?sx = "import_selection ''Beep''"
  let ?sy = "import_selection ''Sleep''"
  let ?bv = "\<lambda>a::int. (None :: symbol option)"
  have a: "got_req_id ?c1 \<noteq> sb_req_id (run_events [XrefSelection (Some ?bv) ?sx,
             XrefSelection (Some ?bv) ?sy] WinDocSidebar_init)"
    by code_simp
  have b: "\<not> looks_like_local (candidate_name ?bv ?sx)"
    by code_simp
  have c: "\<not> looks_like_local (candidate_name ?bv ?sy)"
    by code_simp
  have d: "list_all (after_issue ?c1 ?c2) ?es"
    by (simp add: after_issue_def)
  have e: "count_list ?es (WorkerDone ?c2) \<le> 1"
    by simp
  have f: "ui_log (run_events (XrefSelection (Some ?bv) ?sx # XrefSelection (Some ?bv) ?sy # ?es)
             WinDocSidebar_init) = [ShowDocs 2 ''Sleep'' ''s2'' ''d2'' ''r2'']"
    by code_simp
  have g: "main_queue WinDocSidebar_init = [] \<and> sb_req_id WinDocSidebar_init = 0 \<and>
           ui_log WinDocSidebar_init = []"
    by (simp add: WinDocSidebar_init_def)
  from stale_completion_discarded [of ?c1 WinDocSidebar_init ?bv ?sx ?bv ?sy WinDocSidebar_init
      ?c1 ?c2 ?es] b c d e g
  have "\<exists>new. ui_log (run_events (XrefSelection (Some ?bv) ?sx # XrefSelection (Some ?bv) ?sy # ?es)
             WinDocSidebar_init) = new \<and> length (docs_of new) \<le> 1 \<and> shown ?c1 \<notin> set new"
    by simp
  then have h: "\<exists>new. ui_log (run_events (XrefSelection (Some ?bv) ?sx #
             XrefSelection (Some ?bv) ?sy # ?es) WinDocSidebar_init) = new \<and>
             length (docs_of new) \<le> 1 \<and> ShowDocs 1 ''Beep'' ''s1'' ''d1'' ''r1'' \<notin> set new"
    by (simp add: shown_def)
  show ?thesis
    using a b c d f h by blast
qed

subsection \<open>The timeout\<close>

lemma run_events_append: "run_events (xs @ ys) s = run_events ys (run_events xs s)"
  by (induction xs arbitrary: s) simp_all

lemma idle_step_no_tick:
  assumes "idle_event (sb_req_id s) e" "main_queue s = []" "\<forall>d. e \<noteq> Tick d"
  shows "step e s = s"
  using assms by (cases e) (simp_all add: idle_event_def on_done_stale)

lemma idle_without_timer:
  "main_queue s = [] \<Longrightarrow> sb_timeout s = None \<Longrightarrow>
   list_all (idle_event (sb_req_id s)) es \<Longrightarrow> run_events es s = s"
proof (induction es)
  case Nil
  then show ?case by simp
next
  case (Cons e es)
  have "step e s = s"
  proof (cases "\<exists>d. e = Tick d")
    case True
    then show ?thesis using Cons.prems(2) by auto
  next
    case False
    then show ?thesis using idle_step_no_tick [of s e] Cons.prems by simp
  qed
  then show ?case using Cons by simp
qed

lemma idle_with_timer:
  "main_queue s = [] \<Longrightarrow> sb_timeout s = Some r \<Longrightarrow> 0 < r \<Longrightarrow>
   list_all (idle_event (sb_req_id s)) es \<Longrightarrow>
   ui_log (run_events es s) = ui_log s @ (if r \<le> elapsed es then [ShowTimeout] else []) \<and>
   main_queue (run_events es s) = [] \<and> sb_req_id (run_events es s) = sb_req_id s \<and>
   sb_timeout (run_events es s) = (if r \<le> elapsed es then None else Some (r - elapsed es))"
proof (induction es arbitrary: s r)
  case Nil
  then show ?case by simp
next
  case (Cons e es)
  from Cons.prems(4) have idle: "idle_event (sb_req_id s) e"
      and rest: "list_all (idle_event (sb_req_id s)) es"
    by simp_all
  show ?case
  proof (cases "\<exists>d. e = Tick d")
    case True
    then obtain d where e: "e = Tick d" by blast
    have el: "elapsed (e # es) = d + elapsed es" using e by simp
    show ?thesis
    proof (cases "r \<le> d")
      case True
      let ?s = "on_timeout (s\<lparr>sb_timeout := None\<rparr>)"
      have st: "step e s = ?s" using e Cons.prems(2) True by simp
      have fr: "sb_timeout ?s = None \<and> main_queue ?s = [] \<and> sb_req_id ?s = sb_req_id s \<and>
                ui_log ?s = ui_log s @ [ShowTimeout]"
        using Cons.prems(1) by (simp add: on_timeout_frame)
      have "run_events es ?s = ?s"
        using idle_without_timer [of ?s es] fr rest by simp
      then show ?thesis using st fr True el by simp
    next
      case False
      let ?s = "s\<lparr>sb_timeout := Some (r - d)\<rparr>"
      have st: "step e s = ?s" using e Cons.prems(2) False by simp
      have ih: "ui_log (run_events es ?s) =
                  ui_log ?s @ (if r - d \<le> elapsed es then [ShowTimeout] else []) \<and>
                main_queue (run_events es ?s) = [] \<and>
                sb_req_id (run_events es ?s) = sb_req_id ?s \<and>
                sb_timeout (run_events es ?s) =
                  (if r - d \<le> elapsed es then None else Some (r - d - elapsed es))"
        using Cons.IH [of ?s "r - d"] Cons.prems(1) rest False by simp
      have c: "(r - d \<le> elapsed es) = (r \<le> elapsed (e # es))"
        using False el by auto
      have m: "r - d - elapsed es = r - elapsed (e # es)"
        using el by simp
      show ?thesis
        using st ih c m by simp
    qed
  next
    case False
    then have nt: "\<forall>d. e \<noteq> Tick d" by simp
    have st: "step e s = s" using idle_step_no_tick [OF idle Cons.prems(1) nt] .
    have el: "elapsed (e # es) = elapsed es"
      using nt by (cases e) simp_all
    show ?thesis
      using Cons.IH [of s r] Cons.prems(1,2,3) rest st el by simp
  qed
qed

lemma pending_completion_applied:
  "main_queue s = [c] \<Longrightarrow> sb_timeout s = None \<Longrightarrow>
   list_all (idle_event (sb_req_id s)) mid \<Longrightarrow>
   ui_log (run_events (mid @ [MainThread]) s) =
     ui_log s @ (if c_success c then [shown c] else [])"
proof (induction mid)
  case Nil
  have "main_queue s = c # []" using Nil.prems(1) by simp
  from step_main_cons [OF this] show ?case by simp
next
  case (Cons e es)
  from Cons.prems(3) have idle: "idle_event (sb_req_id s) e"
      and rest: "list_all (idle_event (sb_req_id s)) es"
    by simp_all
  show ?case
  proof (cases e)
    case (XrefSelection frame sel)
    then show ?thesis using idle by (simp add: idle_event_def)
  next
    case (WorkerDone d)
    then have "step e s = s" using idle by (simp add: idle_event_def on_done_stale)
    then show ?thesis using Cons.IH Cons.prems(1,2) rest by simp
  next
    case (Tick d)
    then have "step e s = s" using Cons.prems(2) by simp
    then show ?thesis using Cons.IH Cons.prems(1,2) rest by simp
  next
    case MainThread
    let ?s = "step MainThread s"
    have q: "main_queue s = c # []" using Cons.prems(1) by simp
    have eff: "sb_req_id ?s = sb_req_id s \<and> main_queue ?s = [] \<and>
               ui_log ?s = ui_log s @ (if c_success c then [shown c] else [])"
      using step_main_cons [OF q] by simp
    have off: "sb_timeout ?s = None"
      using q by (simp add: apply_done_def Let_def)
    have all: "list_all (idle_event (sb_req_id ?s)) (es @ [MainThread])"
      using rest eff by (simp add: idle_event_def)
    have "run_events (es @ [MainThread]) ?s = ?s"
      using idle_without_timer [of ?s "es @ [MainThread]"] eff off all by simp
    then show ?thesis using MainThread eff by simp
  qed
qed

lemma late_completion_after_idle:
  assumes q: "main_queue s = []" and t: "sb_timeout s = Some r" and r: "0 < r"
      and pre: "list_all (idle_event (sb_req_id s)) pre" and due: "r \<le> elapsed pre"
      and c: "got_req_id c = sb_req_id s"
      and mid: "list_all (idle_event (sb_req_id s)) mid"
  shows "ui_log (run_events (pre @ WorkerDone c # mid @ [MainThread]) s) =
           ui_log s @ ShowTimeout # (if c_success c then [shown c] else [])"
proof -
  let ?s1 = "run_events pre s"
  have a: "ui_log ?s1 = ui_log s @ [ShowTimeout] \<and> main_queue ?s1 = [] \<and>
           sb_req_id ?s1 = sb_req_id s \<and> sb_timeout ?s1 = None"
    using idle_with_timer [OF q t r pre] due by simp
  let ?s2 = "?s1\<lparr>main_queue := [c]\<rparr>"
  have d: "step (WorkerDone c) ?s1 = ?s2"
    using a c by (simp add: on_done_current)
  have "ui_log (run_events (mid @ [MainThread]) ?s2) =
          ui_log ?s2 @ (if c_success c then [shown c] else [])"
    using pending_completion_applied [of ?s2 c mid] a mid by simp
  then have "ui_log (run_events (mid @ [MainThread]) ?s2) =
          ui_log s @ ShowTimeout # (if c_success c then [shown c] else [])"
    using a by simp
  then show ?thesis
    using d by (simp add: run_events_append)
qed

text \<open>
  Claim C2, as amended. When a lookup is issued while no main-thread callable of an
  earlier completion is pending, the timer is armed with 4000 ms; as long as the
  worker of that generation does not report, and whatever else happens meanwhile
  (time passing in any number of ticks, main-thread turns, workers of other
  generations reporting), the timeout text is shown exactly once if 4000 ms have
  elapsed and not at all otherwise. A completion of that same worker that is delivered
  after the timeout is not discarded, since the timeout leaves the generation as it
  is: once its callable runs on the main thread, a successful completion is shown (a
  second UI update for the generation) and an unsuccessful one changes nothing.
\<close>

theorem timeout_once_late_completion_shown:
  "(\<not> looks_like_local (candidate_name bv sel) \<and> main_queue s0 = [] \<and>
    list_all (idle_event (sb_req_id s0 + 1)) es \<longrightarrow>
      sb_timeout (on_xref_selection (Some bv) sel s0) = Some 4000 \<and>
      ui_log (run_events (XrefSelection (Some bv) sel # es) s0) =
        ui_log s0 @ (if 4000 \<le> elapsed es then [ShowTimeout] else [])) \<and>
   (\<not> looks_like_local (candidate_name bv sel) \<and> main_queue s0 = [] \<and>
    list_all (idle_event (sb_req_id s0 + 1)) pre \<and> 4000 \<le> elapsed pre \<and>
    got_req_id c = sb_req_id s0 + 1 \<and> list_all (idle_event (sb_req_id s0 + 1)) mid \<longrightarrow>
      ui_log (run_events
          (XrefSelection (Some bv) sel # pre @ WorkerDone c # mid @ [MainThread]) s0) =
        ui_log s0 @ ShowTimeout # (if c_success c then [shown c] else []))"
proof -
  let ?s1 = "on_xref_selection (Some bv) sel s0"
  have one: "ui_log (run_events (XrefSelection (Some bv) sel # es) s0) =
        ui_log s0 @ (if 4000 \<le> elapsed es then [ShowTimeout] else [])" and
       arm: "sb_timeout ?s1 = Some 4000"
    if h: "\<not> looks_like_local (candidate_name bv sel)" "main_queue s0 = []"
          "list_all (idle_event (sb_req_id s0 + 1)) es"
  proof -
    have e: "sb_timeout ?s1 = Some 4000 \<and> ui_log ?s1 = ui_log s0 \<and> main_queue ?s1 = [] \<and>
             sb_req_id ?s1 = sb_req_id s0 + 1"
      using issue_effect [OF h(1), of s0] h(2) by simp
    then show "sb_timeout ?s1 = Some 4000" by simp
    have "ui_log (run_events es ?s1) =
            ui_log ?s1 @ (if 4000 \<le> elapsed es then [ShowTimeout] else [])"
      using idle_with_timer [of ?s1 4000 es] e h(3) by simp
    then show "ui_log (run_events (XrefSelection (Some bv) sel # es) s0) =
        ui_log s0 @ (if 4000 \<le> elapsed es then [ShowTimeout] else [])"
      using e by simp
  qed
  have two: "ui_log (run_events
          (XrefSelection (Some bv) sel # pre @ WorkerDone c # mid @ [MainThread]) s0) =
        ui_log s0 @ ShowTimeout # (if c_success c then [shown c] else [])"
    if h: "\<not> looks_like_local (candidate_name bv sel)" "main_queue s0 = []"
          "list_all (idle_event (sb_req_id s0 + 1)) pre" "4000 \<le> elapsed pre"
          "got_req_id c = sb_req_id s0 + 1" "list_all (idle_event (sb_req_id s0 + 1)) mid"
  proof -
    have e: "sb_timeout ?s1 = Some 4000 \<and> ui_log ?s1 = ui_log s0 \<and> main_queue ?s1 = [] \<and>
             sb_req_id ?s1 = sb_req_id s0 + 1"
      using issue_effect [OF h(1), of s0] h(2) by simp
    have "ui_log (run_events (pre @ WorkerDone c # mid @ [MainThread]) ?s1) =
            ui_log ?s1 @ ShowTimeout # (if c_success c then [shown c] else [])"
      using late_completion_after_idle [of ?s1 4000 pre c mid] e h by simp
    then show ?thesis using e by simp
  qed
  show ?thesis
    using one arm two by blast
qed

theorem timeout_once_late_completion_shown_witness:
  "\<not> looks_like_local (candidate_name (\<lambda>a. None) (import_selection ''Beep'')) \<and>
   main_queue WinDocSidebar_init = [] \<and>
   list_all (idle_event (sb_req_id WinDocSidebar_init + 1))
     [Tick 1500,
      WorkerDone \<lparr>got_req_id = 0, func_name = ''Sleep'', c_success = True, c_syntax = ''s0'',
                  c_desc = ''d0'', c_rv = ''r0''\<rparr>,
      MainThread, Tick 1500, Tick 1500] \<and>
   ui_log (run_events
     [XrefSelection (Some (\<lambda>a. None)) (import_selection ''Beep''),
      Tick 1500,
      WorkerDone \<lparr>got_req_id = 0, func_name = ''Sleep'', c_success = True, c_syntax = ''s0'',
                  c_desc = ''d0'', c_rv = ''r0''\<rparr>,
      MainThread, Tick 1500, Tick 1500] WinDocSidebar_init) = [ShowTimeout] \<and>
   ui_log (run_events
     [XrefSelection (Some (\<lambda>a. None)) (import_selection ''Beep''),
      Tick 1500, MainThread, Tick 1500] WinDocSidebar_init) = [] \<and>
   4000 \<le> elapsed [Tick 2500, MainThread, Tick 2500] \<and>
   ui_log (run_events
     [XrefSelection (Some (\<lambda>a. None)) (import_selection ''Beep''),
      Tick 2500, MainThread, Tick 2500,
      WorkerDone \<lparr>got_req_id = 1, func_name = ''Beep'', c_success = True, c_syntax = ''s1'',
                  c_desc = ''d1'', c_rv = ''r1''\<rparr>,
      Tick 10, MainThread] WinDocSidebar_init) =
     [ShowTimeout, ShowDocs 1 ''Beep'' ''s1'' ''d1'' ''r1'']"
proof -
  let ?stale = "\<lparr>got_req_id = 0, func_name = ''Sleep'', c_success = True, c_syntax = ''s0'',
              c_desc = ''d0'', c_rv = ''r0''\<rparr>"
  let ?c = "\<lparr>got_req_id = 1, func_name = ''Beep'', c_success = True, c_syntax = ''s1'',
             c_desc = ''d1'', c_rv = ''r1''\<rparr>"
  let ?bv = "\<lambda>a::int. (None :: symbol option)"
  let ?sel = "import_selection ''Beep''"
  let ?es = "[Tick 1500, WorkerDone ?stale, MainThread, Tick 1500, Tick 1500]"
  let ?short = "[Tick 1500, MainThread, Tick 1500]"
  let ?pre = "[Tick 2500, MainThread, Tick 2500]"
  let ?mid = "[Tick 10]"
  have a: "\<not> looks_like_local (candidate_name ?bv ?sel)"
    by code_simp
  have i: "main_queue WinDocSidebar_init = [] \<and> sb_req_id WinDocSidebar_init = 0 \<and>
           ui_log WinDocSidebar_init = []"
    by (simp add: WinDocSidebar_init_def)
  have l1: "list_all (idle_event (sb_req_id WinDocSidebar_init + 1)) ?es"
    by code_simp
  have l2: "list_all (idle_event (sb_req_id WinDocSidebar_init + 1)) ?short"
    by code_simp
  have l3: "list_all (idle_event (sb_req_id WinDocSidebar_init + 1)) ?pre"
    by code_simp
  have l4: "list_all (idle_event (sb_req_id WinDocSidebar_init + 1)) ?mid"
    by code_simp
  have d: "4000 \<le> elapsed ?pre" by simp
  have g: "got_req_id ?c = sb_req_id WinDocSidebar_init + 1" using i by simp
  note th1 = timeout_once_late_completion_shown [of ?bv ?sel WinDocSidebar_init ?es ?pre ?c ?mid]
  note th2 = timeout_once_late_completion_shown [of ?bv ?sel WinDocSidebar_init ?short ?pre ?c ?mid]
  from th1 a i l1 have p1: "ui_log (run_events (XrefSelection (Some ?bv) ?sel # ?es)
        WinDocSidebar_init) =
      ui_log WinDocSidebar_init @ (if 4000 \<le> elapsed ?es then [ShowTimeout] else [])"
    by blast
  have r1: "ui_log WinDocSidebar_init @ (if 4000 \<le> elapsed ?es then [ShowTimeout] else []) =
      [ShowTimeout]"
    using i by simp
  from th2 a i l2 have p2: "ui_log (run_events (XrefSelection (Some ?bv) ?sel # ?short)
        WinDocSidebar_init) =
      ui_log WinDocSidebar_init @ (if 4000 \<le> elapsed ?short then [ShowTimeout] else [])"
    by blast
  have r2: "ui_log WinDocSidebar_init @ (if 4000 \<le> elapsed ?short then [ShowTimeout] else []) = []"
    using i by simp
  from th1 a i l3 d g l4 have p3: "ui_log (run_events
        (XrefSelection (Some ?bv) ?sel # ?pre @ WorkerDone ?c # ?mid @ [MainThread])
        WinDocSidebar_init) =
      ui_log WinDocSidebar_init @ ShowTimeout # (if c_success ?c then [shown ?c] else [])"
    by blast
  have r3: "ui_log WinDocSidebar_init @ ShowTimeout # (if c_success ?c then [shown ?c] else []) =
      [ShowTimeout, ShowDocs 1 ''Beep'' ''s1'' ''d1'' ''r1'']"
    using i by (simp add: shown_def)
  have e3: "XrefSelection (Some ?bv) ?sel # ?pre @ WorkerDone ?c # ?mid @ [MainThread] =
      [XrefSelection (Some ?bv) ?sel, Tick 2500, MainThread, Tick 2500, WorkerDone ?c,
       Tick 10, MainThread]"
    by simp
  have q1: "ui_log (run_events (XrefSelection (Some ?bv) ?sel # ?es) WinDocSidebar_init) =
      [ShowTimeout]"
    using p1 r1 by (rule trans)
  have q2: "ui_log (run_events (XrefSelection (Some ?bv) ?sel # ?short) WinDocSidebar_init) = []"
    using p2 r2 by (rule trans)
  have q3: "ui_log (run_events
        [XrefSelection (Some ?bv) ?sel, Tick 2500, MainThread, Tick 2500, WorkerDone ?c,
         Tick 10, MainThread] WinDocSidebar_init) =
      [ShowTimeout, ShowDocs 1 ''Beep'' ''s1'' ''d1'' ''r1'']"
    using p3 r3 unfolding e3 by (rule trans)
  show ?thesis
    using a i l1 d q1 q2 q3 by blast
qed

theorem late_completion_counterexample:
  "ui_log (run_events
     [XrefSelection (Some (\<lambda>a. None)) (import_selection ''Beep''),
      Tick 4000,
      WorkerDone \<lparr>got_req_id = 1, func_name = ''Beep'', c_success = True,
                  c_syntax = ''BOOL Beep(DWORD f, DWORD d);'', c_desc = ''Makes a sound.'',
                  c_rv = ''Nonzero on success.''\<rparr>,
      MainThread] WinDocSidebar_init) =
   [ShowTimeout,
    ShowDocs 1 ''Beep'' ''BOOL Beep(DWORD f, DWORD d);'' ''Makes a sound.''
      ''Nonzero on success.'']"
  by code_simp

section \<open>Properties of the fetcher\<close>

lemma contains_nonempty: "contains (c # cs) u \<Longrightarrow> u \<noteq> []"
  by (cases u) simp_all

lemma select_url_refines: "select_url name results = spec_select name results"
proof (induction results)
  case Nil
  show ?case by (simp add: spec_select_def)
next
  case (Cons res rest)
  then show ?case
    by (auto simp: spec_select_def spec_qualifies_def entry_title_def entry_url_def
        resolved_url_def Let_def not_less)
qed

lemma select_url_nonempty: "select_url name results = Some url \<Longrightarrow> url \<noteq> []"
proof (induction results)
  case Nil
  then show ?case by simp
next
  case (Cons res rest)
  then show ?case
    by (auto simp: Let_def dest: contains_nonempty split: if_splits)
qed

lemma find_none_iff_no_entry: "(find P xs = None) = (\<not> list_ex P xs)"
  by (induction xs) auto

text \<open>
  Claim C7. The loop over the ordered search results returns the resolved URL of the
  first entry that qualifies in the specification's sense. When the search answers
  and no entry qualifies, no page is fetched and the scraper is left without a page;
  when an entry qualifies, the page fetched is the one at that entry's resolved URL.
\<close>

theorem first_qualifying_entry_selected:
  "select_url name results = map_option resolved_url (find (spec_qualifies name) results) \<and>
   (search_api net name = Some results \<and> \<not> list_ex (spec_qualifies name) results \<longrightarrow>
      init_from_name net name scr w = (None, scr, w\<lparr>http_log := http_log w @ [Search name]\<rparr>)) \<and>
   (search_api net name = Some results \<and> find (spec_qualifies name) results = Some res \<and>
    page_at net (resolved_url res) = Some pg \<longrightarrow>
      soup (fst (snd (init_from_name net name scr w))) = Some pg \<and>
      http_log (snd (snd (init_from_name net name scr w))) =
        http_log w @ [Search name, GetPage (resolved_url res)])"
proof (intro conjI impI)
  show r: "select_url name results = map_option resolved_url (find (spec_qualifies name) results)"
    using select_url_refines [of name results] by (simp add: spec_select_def)
next
  assume h: "search_api net name = Some results \<and> \<not> list_ex (spec_qualifies name) results"
  then have "find (spec_qualifies name) results = None"
    by (simp add: find_none_iff_no_entry)
  then have "select_url name results = None"
    using select_url_refines [of name results] by (simp add: spec_select_def)
  then show "init_from_name net name scr w =
      (None, scr, w\<lparr>http_log := http_log w @ [Search name]\<rparr>)"
    using h by (simp add: init_from_name_def Let_def)
next
  assume h: "search_api net name = Some results \<and> find (spec_qualifies name) results = Some res \<and>
    page_at net (resolved_url res) = Some pg"
  then have sel: "select_url name results = Some (resolved_url res)"
    using select_url_refines [of name results] by (simp add: spec_select_def)
  then have ne: "resolved_url res \<noteq> []" by (rule select_url_nonempty)
  have "results \<noteq> []" using h by auto
  then have both: "soup (fst (snd (init_from_name net name scr w))) = Some pg \<and>
      http_log (snd (snd (init_from_name net name scr w))) =
        http_log w @ [Search name, GetPage (resolved_url res)]"
    using h sel ne by (simp add: init_from_name_def Let_def)
  from both show "soup (fst (snd (init_from_name net name scr w))) = Some pg" by simp
  from both show "http_log (snd (snd (init_from_name net name scr w))) =
        http_log w @ [Search name, GetPage (resolved_url res)]" by simp
qed

theorem first_qualifying_entry_selected_witness:
  "find (spec_qualifies ''OpenMutex'')
     [\<lparr>hit_title = Some ''OpenMutex sample'', hit_url = None\<rparr>,
      \<lparr>hit_title = Some ''OpenMutexes explained'',
       hit_url = Some ''/en-us/windows/win32/api/synchapi/overview''\<rparr>,
      \<lparr>hit_title = Some ''OpenMutexW function (synchapi.h)'',
       hit_url = Some '' /en-us/windows/win32/api/synchapi/nf-synchapi-openmutexw''\<rparr>,
      \<lparr>hit_title = Some ''OpenMutex'',
       hit_url = Some ''https://learn.microsoft.com/windows/win32/api/x''\<rparr>]
     = Some \<lparr>hit_title = Some ''OpenMutexW function (synchapi.h)'',
             hit_url = Some '' /en-us/windows/win32/api/synchapi/nf-synchapi-openmutexw''\<rparr> \<and>
   select_url ''OpenMutex''
     [\<lparr>hit_title = Some ''OpenMutex sample'', hit_url = None\<rparr>,
      \<lparr>hit_title = Some ''OpenMutexes explained'',
       hit_url = Some ''/en-us/windows/win32/api/synchapi/overview''\<rparr>,
      \<lparr>hit_title = Some ''OpenMutexW function (synchapi.h)'',
       hit_url = Some '' /en-us/windows/win32/api/synchapi/nf-synchapi-openmutexw''\<rparr>,
      \<lparr>hit_title = Some ''OpenMutex'',
       hit_url = Some ''https://learn.microsoft.com/windows/win32/api/x''\<rparr>]
     = Some ''https://learn.microsoft.com/en-us/windows/win32/api/synchapi/nf-synchapi-openmutexw'' \<and>
   \<not> list_ex (spec_qualifies ''Open'')
     [\<lparr>hit_title = Some ''Opened handles'',
       hit_url = Some ''/en-us/windows/win32/api/handleapi/overview''\<rparr>,
      \<lparr>hit_title = Some ''OpenMutexW function'', hit_url = Some ''/en-us/windows/desktop/x''\<rparr>] \<and>
   init_from_name
     \<lparr>search_api = (\<lambda>n. Some
        [\<lparr>hit_title = Some ''Opened handles'',
          hit_url = Some ''/en-us/windows/win32/api/handleapi/overview''\<rparr>,
         \<lparr>hit_title = Some ''OpenMutexW function'', hit_url = Some ''/en-us/windows/desktop/x''\<rparr>]),
      page_at = (\<lambda>u. None)\<rparr>
     ''Open''
     \<lparr>requested_name = ''Open'', resolved_name = None, soup = None, h2_titles = []\<rparr>
     \<lparr>files = (\<lambda>p. None), fs_ops = [], http_log = []\<rparr>
   = (None,
      \<lparr>requested_name = ''Open'', resolved_name = None, soup = None, h2_titles = []\<rparr>,
      \<lparr>files = (\<lambda>p. None), fs_ops = [], http_log = []\<rparr>
        \<lparr>http_log := http_log \<lparr>files = (\<lambda>p. None), fs_ops = [], http_log = []\<rparr>
           @ [Search ''Open'']\<rparr>)"
proof -
  let ?rs = "[\<lparr>hit_title = Some ''OpenMutex sample'', hit_url = None\<rparr>,
      \<lparr>hit_title = Some ''OpenMutexes explained'',
       hit_url = Some ''/en-us/windows/win32/api/synchapi/overview''\<rparr>,
      \<lparr>hit_title = Some ''OpenMutexW function (synchapi.h)'',
       hit_url = Some '' /en-us/windows/win32/api/synchapi/nf-synchapi-openmutexw''\<rparr>,
      \<lparr>hit_title = Some ''OpenMutex'',
       hit_url = Some ''https://learn.microsoft.com/windows/win32/api/x''\<rparr>]"
  let ?hit = "\<lparr>hit_title = Some ''OpenMutexW function (synchapi.h)'',
       hit_url = Some '' /en-us/windows/win32/api/synchapi/nf-synchapi-openmutexw''\<rparr>"
  let ?qs = "[\<lparr>hit_title = Some ''Opened handles'',
       hit_url = Some ''/en-us/windows/win32/api/handleapi/overview''\<rparr>,
      \<lparr>hit_title = Some ''OpenMutexW function'', hit_url = Some ''/en-us/windows/desktop/x''\<rparr>]"
  let ?net = "\<lparr>search_api = (\<lambda>n::string. Some ?qs), page_at = (\<lambda>u::string. None)\<rparr>"
  let ?scr = "\<lparr>requested_name = ''Open'', resolved_name = None, soup = None, h2_titles = []\<rparr>"
  let ?w = "\<lparr>files = (\<lambda>p. None), fs_ops = [], http_log = []\<rparr>"
  have f: "find (spec_qualifies ''OpenMutex'') ?rs = Some ?hit"
    by code_simp
  have u: "resolved_url ?hit =
      ''https://learn.microsoft.com/en-us/windows/win32/api/synchapi/nf-synchapi-openmutexw''"
    by code_simp
  have n: "\<not> list_ex (spec_qualifies ''Open'') ?qs"
    by code_simp
  have s: "search_api ?net ''Open'' = Some ?qs"
    by simp
  note th1 = first_qualifying_entry_selected [of "''OpenMutex''" ?rs ?net ?scr ?w ?hit]
  note th2 = first_qualifying_entry_selected [of "''Open''" ?qs ?net ?scr ?w]
  from th1 have a: "select_url ''OpenMutex'' ?rs =
      map_option resolved_url (find (spec_qualifies ''OpenMutex'') ?rs)"
    by blast
  have b: "map_option resolved_url (find (spec_qualifies ''OpenMutex'') ?rs) =
      Some ''https://learn.microsoft.com/en-us/windows/win32/api/synchapi/nf-synchapi-openmutexw''"
    by (simp only: f u option.map)
  from th2 n s have c: "init_from_name ?net ''Open'' ?scr ?w =
      (None, ?scr, ?w\<lparr>http_log := http_log ?w @ [Search ''Open'']\<rparr>)"
    by blast
  show ?thesis
    using f a b c n by (simp only:) simp
qed

section \<open>Properties of the atomic write\<close>

lemma mkstemp_fresh:
  "mkstemp ns d fs = Some p \<Longrightarrow>
   fst p = d \<and> fs p = None \<and> startswith (snd p) ''windoc_''"
  by (induction ns) (auto simp: Let_def startswith_def split: if_splits)

lemma cleanup_never_raises: "fst (cleanup_tmp io tmp w) = None"
  by (simp add: cleanup_tmp_def remove_tmp_def split: prod.splits)

lemma cleanup_keeps_others:
  "p \<noteq> tmp \<Longrightarrow> files (snd (cleanup_tmp io tmp w)) p = files w p"
  by (simp add: cleanup_tmp_def remove_tmp_def split: prod.splits)

lemma cleanup_absent:
  "files w tmp = None \<Longrightarrow> snd (cleanup_tmp io tmp w) = w"
  by (simp add: cleanup_tmp_def remove_tmp_def)

lemma cleanup_removes:
  "\<not> remove_fails io \<Longrightarrow> files (snd (cleanup_tmp io tmp w)) tmp = None"
  by (simp add: cleanup_tmp_def remove_tmp_def)

lemma write_and_replace_ok:
  assumes "tmp \<noteq> target" "\<not> dump_fails io" "\<not> replace_fails io"
  shows "write_and_replace io tmp target obj w =
     (None, w\<lparr>files := ((files w)(target \<mapsto> Doc obj))(tmp := None),
              fs_ops := fs_ops w @ [OpWrite tmp obj, OpReplace tmp target]\<rparr>)"
  using assms by (simp add: write_and_replace_def os_replace_def Let_def fun_upd_twist)

lemma write_and_replace_failed:
  assumes "tmp \<noteq> target" "dump_fails io \<or> replace_fails io"
  shows "fst (write_and_replace io tmp target obj w) = Some OSError \<and>
         files (snd (write_and_replace io tmp target obj w)) target = files w target"
  using assms by (auto simp: write_and_replace_def Let_def)

lemma atomic_write_success:
  assumes nt: "\<not> startswith (snd target) ''windoc_''"
      and r: "atomic_write_json io target obj w = (None, w')"
  shows "\<exists>tmp. files w tmp = None \<and> dirname tmp = dirname target \<and>
           fs_ops w' = fs_ops w @ [OpMakedirs (dirname target), OpCreate tmp, OpWrite tmp obj,
                                   OpReplace tmp target] \<and>
           files w' = (files w)(target \<mapsto> Doc obj)"
proof -
  let ?d = "dirname target"
  let ?w0 = "w\<lparr>fs_ops := fs_ops w @ [OpMakedirs ?d]\<rparr>"
  have mk: "\<not> makedirs_fails io"
    using r by (auto simp: atomic_write_json_def Let_def)
  obtain tmp where tmp: "mkstemp (temp_names io) ?d (files w) = Some tmp"
    using r mk by (cases "mkstemp (temp_names io) ?d (files w)")
      (auto simp: atomic_write_json_def Let_def)
  from mkstemp_fresh [OF tmp] have fr: "fst tmp = ?d" "files w tmp = None"
      "startswith (snd tmp) ''windoc_''"
    by simp_all
  have ne: "tmp \<noteq> target" using fr(3) nt by auto
  let ?w1 = "?w0\<lparr>files := (files ?w0)(tmp \<mapsto> Garbage), fs_ops := fs_ops ?w0 @ [OpCreate tmp]\<rparr>"
  obtain e w2 where wr: "write_and_replace io tmp target obj ?w1 = (e, w2)"
    by (cases "write_and_replace io tmp target obj ?w1")
  obtain ce w3 where cl: "cleanup_tmp io tmp w2 = (ce, w3)"
    by (cases "cleanup_tmp io tmp w2")
  have ce: "ce = None" using cleanup_never_raises [of io tmp w2] cl by simp
  have res: "atomic_write_json io target obj w = (e, w3)"
    using mk tmp wr cl ce by (simp add: atomic_write_json_def Let_def)
  then have e: "e = None" and w3: "w3 = w'" using r by simp_all
  have nofail: "\<not> dump_fails io \<and> \<not> replace_fails io"
    using write_and_replace_failed [OF ne, of io obj ?w1] wr e by auto
  have w2: "w2 = ?w1\<lparr>files := ((files ?w1)(target \<mapsto> Doc obj))(tmp := None),
                     fs_ops := fs_ops ?w1 @ [OpWrite tmp obj, OpReplace tmp target]\<rparr>"
    using write_and_replace_ok [OF ne, of io obj ?w1] nofail wr by simp
  then have gone: "files w2 tmp = None" by simp
  have "w3 = w2" using cleanup_absent [OF gone, of io] cl by simp
  then have w': "w' = w2" using w3 by simp
  have fl: "files w' = (files w)(target \<mapsto> Doc obj)"
    using w' w2 fr(2) ne by (auto simp: fun_eq_iff)
  have ops: "fs_ops w' = fs_ops w @ [OpMakedirs ?d, OpCreate tmp, OpWrite tmp obj,
                                     OpReplace tmp target]"
    using w' w2 by simp
  have "files w tmp = None \<and> dirname tmp = dirname target \<and>
        fs_ops w' = fs_ops w @ [OpMakedirs ?d, OpCreate tmp, OpWrite tmp obj,
                                OpReplace tmp target] \<and>
        files w' = (files w)(target \<mapsto> Doc obj)"
    using fr(1,2) fl ops by (simp add: dirname_def)
  then show ?thesis by (rule exI)
qed

lemma atomic_write_failure:
  assumes nt: "\<not> startswith (snd target) ''windoc_''"
      and r: "atomic_write_json io target obj w = (Some e, w')"
  shows "e = OSError \<and> files w' target = files w target"
proof (cases "makedirs_fails io")
  case True
  then show ?thesis using r by (simp add: atomic_write_json_def Let_def)
next
  case mk: False
  let ?d = "dirname target"
  let ?w0 = "w\<lparr>fs_ops := fs_ops w @ [OpMakedirs ?d]\<rparr>"
  show ?thesis
  proof (cases "mkstemp (temp_names io) ?d (files w)")
    case None
    then show ?thesis using r mk by (auto simp: atomic_write_json_def Let_def)
  next
    case (Some tmp)
    from mkstemp_fresh [OF Some] have fr: "startswith (snd tmp) ''windoc_''" by simp
    have ne: "tmp \<noteq> target" using fr nt by auto
    let ?w1 = "?w0\<lparr>files := (files ?w0)(tmp \<mapsto> Garbage), fs_ops := fs_ops ?w0 @ [OpCreate tmp]\<rparr>"
    obtain e2 w2 where wr: "write_and_replace io tmp target obj ?w1 = (e2, w2)"
      by (cases "write_and_replace io tmp target obj ?w1")
    obtain ce w3 where cl: "cleanup_tmp io tmp w2 = (ce, w3)"
      by (cases "cleanup_tmp io tmp w2")
    have ce: "ce = None" using cleanup_never_raises [of io tmp w2] cl by simp
    have res: "atomic_write_json io target obj w = (e2, w3)"
      using mk Some wr cl ce by (simp add: atomic_write_json_def Let_def)
    then have e2: "e2 = Some e" and w3: "w3 = w'" using r by simp_all
    have failed: "dump_fails io \<or> replace_fails io"
    proof (rule ccontr)
      assume "\<not> (dump_fails io \<or> replace_fails io)"
      then have "fst (write_and_replace io tmp target obj ?w1) = None"
        using write_and_replace_ok [OF ne, of io obj ?w1] by simp
      then show False using wr e2 by simp
    qed
    from write_and_replace_failed [OF ne failed, of obj ?w1] wr e2
    have a: "e = OSError" and b: "files w2 target = files ?w1 target"
      by simp_all
    have "files w3 target = files w2 target"
      using cleanup_keeps_others [of target tmp io w2] ne cl by simp
    then have "files w' target = files w target"
      using b w3 ne by simp
    then show ?thesis using a by simp
  qed
qed

lemma cleanup_effect:
  "files w tmp \<noteq> None \<Longrightarrow> \<not> remove_fails io \<Longrightarrow>
   files (snd (cleanup_tmp io tmp w)) = (files w)(tmp := None) \<and>
   fs_ops (snd (cleanup_tmp io tmp w)) = fs_ops w @ [OpRemove tmp]"
  by (simp add: cleanup_tmp_def remove_tmp_def)

lemma cleanup_swallowed:
  "files w tmp \<noteq> None \<Longrightarrow> remove_fails io \<Longrightarrow>
   remove_tmp io tmp w = (Some OSError, w) \<and> cleanup_tmp io tmp w = (None, w)"
  by (simp add: cleanup_tmp_def remove_tmp_def)

lemma write_and_replace_failed_others:
  assumes "dump_fails io \<or> replace_fails io" "p \<noteq> tmp"
  shows "files (snd (write_and_replace io tmp target obj w)) p = files w p"
  using assms by (auto simp: write_and_replace_def Let_def)

lemma atomic_write_failure_clean:
  assumes nt: "\<not> startswith (snd target) ''windoc_''"
      and r: "atomic_write_json io target obj w = (Some e, w')"
      and rm: "\<not> remove_fails io"
  shows "files w' = files w"
proof (cases "makedirs_fails io")
  case True
  then show ?thesis using r by (simp add: atomic_write_json_def Let_def)
next
  case mk: False
  let ?d = "dirname target"
  let ?w0 = "w\<lparr>fs_ops := fs_ops w @ [OpMakedirs ?d]\<rparr>"
  show ?thesis
  proof (cases "mkstemp (temp_names io) ?d (files w)")
    case None
    then show ?thesis using r mk by (auto simp: atomic_write_json_def Let_def)
  next
    case (Some tmp)
    from mkstemp_fresh [OF Some] have fr: "startswith (snd tmp) ''windoc_''" "files w tmp = None"
      by simp_all
    have ne: "tmp \<noteq> target" using fr(1) nt by auto
    let ?w1 = "?w0\<lparr>files := (files ?w0)(tmp \<mapsto> Garbage), fs_ops := fs_ops ?w0 @ [OpCreate tmp]\<rparr>"
    obtain e2 w2 where wr: "write_and_replace io tmp target obj ?w1 = (e2, w2)"
      by (cases "write_and_replace io tmp target obj ?w1")
    obtain ce w3 where cl: "cleanup_tmp io tmp w2 = (ce, w3)"
      by (cases "cleanup_tmp io tmp w2")
    have ce: "ce = None" using cleanup_never_raises [of io tmp w2] cl by simp
    have res: "atomic_write_json io target obj w = (e2, w3)"
      using mk Some wr cl ce by (simp add: atomic_write_json_def Let_def)
    then have e2: "e2 = Some e" and w3: "w3 = w'" using r by simp_all
    have failed: "dump_fails io \<or> replace_fails io"
    proof (rule ccontr)
      assume "\<not> (dump_fails io \<or> replace_fails io)"
      then have "fst (write_and_replace io tmp target obj ?w1) = None"
        using write_and_replace_ok [OF ne, of io obj ?w1] by simp
      then show False using wr e2 by simp
    qed
    have gone: "files w3 tmp = None"
      using cleanup_removes [OF rm, of tmp w2] cl by simp
    have others: "\<And>p. p \<noteq> tmp \<Longrightarrow> files w3 p = files w p"
    proof -
      fix p :: path
      assume p: "p \<noteq> tmp"
      have "files w3 p = files w2 p"
        using cleanup_keeps_others [OF p, of io w2] cl by simp
      also have "files w2 p = files ?w1 p"
        using write_and_replace_failed_others [OF failed p, of target obj ?w1] wr by simp
      also have "files ?w1 p = files w p" using p by simp
      finally show "files w3 p = files w p" .
    qed
    have "files w3 = files w"
    proof
      fix p
      show "files w3 p = files w p"
        using gone fr(2) others [of p] by (cases "p = tmp") simp_all
    qed
    then show ?thesis using w3 by simp
  qed
qed

text \<open>
  Claim C8. A persistence call that returns has created a fresh temporary file in the
  directory of the target, written the whole document into it and replaced the target
  by it, in that order, and the target then holds the document. A call that fails
  raises \<open>OSError\<close> and leaves the target as it was. The cleanup of the temporary file
  is best effort and never raises: when the temporary file still exists and its
  removal succeeds, the file is removed and nothing else changes; when the removal
  fails, the \<open>OSError\<close> of the removal is swallowed and the world is left as it is.
  So a failing call whose removal succeeds leaves every file as it was before the call.
\<close>

theorem atomic_write_via_temp_file:
  "fst (cleanup_tmp io tmp w) = None \<and>
   (files w tmp \<noteq> None \<and> \<not> remove_fails io \<longrightarrow>
      files (snd (cleanup_tmp io tmp w)) = (files w)(tmp := None) \<and>
      fs_ops (snd (cleanup_tmp io tmp w)) = fs_ops w @ [OpRemove tmp]) \<and>
   (files w tmp \<noteq> None \<and> remove_fails io \<longrightarrow>
      remove_tmp io tmp w = (Some OSError, w) \<and> cleanup_tmp io tmp w = (None, w)) \<and>
   (\<not> startswith (snd target) ''windoc_'' \<and> atomic_write_json io target obj w = (None, w') \<longrightarrow>
      (\<exists>t. files w t = None \<and> dirname t = dirname target \<and>
            fs_ops w' = fs_ops w @ [OpMakedirs (dirname target), OpCreate t, OpWrite t obj,
                                    OpReplace t target] \<and>
            files w' = (files w)(target \<mapsto> Doc obj))) \<and>
   (\<not> startswith (snd target) ''windoc_'' \<and> atomic_write_json io target obj w = (Some e, w') \<longrightarrow>
      e = OSError \<and> files w' target = files w target \<and>
      (\<not> remove_fails io \<longrightarrow> files w' = files w))"
  using cleanup_never_raises [of io tmp w] cleanup_effect [of w tmp io]
    cleanup_swallowed [of w tmp io] atomic_write_success [of target io obj w w']
    atomic_write_failure [of target io obj w e w']
    atomic_write_failure_clean [of target io obj w e w']
  by blast

theorem atomic_write_via_temp_file_witness:
  "\<not> startswith (snd (''/plug'', ''cache.json'')) ''windoc_'' \<and>
   fst (atomic_write_json
     \<lparr>makedirs_fails = False, temp_names = [''k3x9'', ''ab12''], dump_fails = False,
      replace_fails = False, remove_fails = False\<rparr>
     (''/plug'', ''cache.json'') (JObj [(''Beep'', negative_entry)])
     \<lparr>files = (\<lambda>p. if p = (''/plug'', ''windoc_k3x9.json'') then Some Garbage else None),
      fs_ops = [], http_log = []\<rparr>) = None \<and>
   fs_ops (snd (atomic_write_json
     \<lparr>makedirs_fails = False, temp_names = [''k3x9'', ''ab12''], dump_fails = False,
      replace_fails = False, remove_fails = False\<rparr>
     (''/plug'', ''cache.json'') (JObj [(''Beep'', negative_entry)])
     \<lparr>files = (\<lambda>p. if p = (''/plug'', ''windoc_k3x9.json'') then Some Garbage else None),
      fs_ops = [], http_log = []\<rparr>)) =
     [OpMakedirs ''/plug'', OpCreate (''/plug'', ''windoc_ab12.json''),
      OpWrite (''/plug'', ''windoc_ab12.json'') (JObj [(''Beep'', negative_entry)]),
      OpReplace (''/plug'', ''windoc_ab12.json'') (''/plug'', ''cache.json'')] \<and>
   files (snd (atomic_write_json
     \<lparr>makedirs_fails = False, temp_names = [''k3x9'', ''ab12''], dump_fails = False,
      replace_fails = False, remove_fails = False\<rparr>
     (''/plug'', ''cache.json'') (JObj [(''Beep'', negative_entry)])
     \<lparr>files = (\<lambda>p. if p = (''/plug'', ''windoc_k3x9.json'') then Some Garbage else None),
      fs_ops = [], http_log = []\<rparr>)) (''/plug'', ''cache.json'') =
     Some (Doc (JObj [(''Beep'', negative_entry)])) \<and>
   fst (atomic_write_json
     \<lparr>makedirs_fails = False, temp_names = [''ab12''], dump_fails = False,
      replace_fails = True, remove_fails = False\<rparr>
     (''/plug'', ''cache.json'') (JObj [(''Beep'', negative_entry)])
     \<lparr>files = (\<lambda>p. None), fs_ops = [], http_log = []\<rparr>) = Some OSError \<and>
   fs_ops (snd (atomic_write_json
     \<lparr>makedirs_fails = False, temp_names = [''ab12''], dump_fails = False,
      replace_fails = True, remove_fails = False\<rparr>
     (''/plug'', ''cache.json'') (JObj [(''Beep'', negative_entry)])
     \<lparr>files = (\<lambda>p. None), fs_ops = [], http_log = []\<rparr>)) =
     [OpMakedirs ''/plug'', OpCreate (''/plug'', ''windoc_ab12.json''),
      OpWrite (''/plug'', ''windoc_ab12.json'') (JObj [(''Beep'', negative_entry)]),
      OpRemove (''/plug'', ''windoc_ab12.json'')] \<and>
   files (snd (atomic_write_json
     \<lparr>makedirs_fails = False, temp_names = [''ab12''], dump_fails = False,
      replace_fails = True, remove_fails = False\<rparr>
     (''/plug'', ''cache.json'') (JObj [(''Beep'', negative_entry)])
     \<lparr>files = (\<lambda>p. None), fs_ops = [], http_log = []\<rparr>)) = (\<lambda>p. None) \<and>
   files (snd (cleanup_tmp
     \<lparr>makedirs_fails = False, temp_names = [], dump_fails = False,
      replace_fails = False, remove_fails = False\<rparr>
     (''/plug'', ''windoc_ab12.json'')
     \<lparr>files = (\<lambda>p. if p = (''/plug'', ''windoc_ab12.json'') then Some Garbage else None),
      fs_ops = [], http_log = []\<rparr>)) (''/plug'', ''windoc_ab12.json'') = None \<and>
   cleanup_tmp
     \<lparr>makedirs_fails = False, temp_names = [], dump_fails = False,
      replace_fails = False, remove_fails = True\<rparr>
     (''/plug'', ''windoc_ab12.json'')
     \<lparr>files = (\<lambda>p. if p = (''/plug'', ''windoc_ab12.json'') then Some Garbage else None),
      fs_ops = [], http_log = []\<rparr> =
     (None,
      \<lparr>files = (\<lambda>p. if p = (''/plug'', ''windoc_ab12.json'') then Some Garbage else None),
       fs_ops = [], http_log = []\<rparr>) \<and>
   fst (atomic_write_json
     \<lparr>makedirs_fails = False, temp_names = [''ab12''], dump_fails = False,
      replace_fails = True, remove_fails = True\<rparr>
     (''/plug'', ''cache.json'') (JObj [(''Beep'', negative_entry)])
     \<lparr>files = (\<lambda>p. None), fs_ops = [], http_log = []\<rparr>) = Some OSError \<and>
   files (snd (atomic_write_json
     \<lparr>makedirs_fails = False, temp_names = [''ab12''], dump_fails = False,
      replace_fails = True, remove_fails = True\<rparr>
     (''/plug'', ''cache.json'') (JObj [(''Beep'', negative_entry)])
     \<lparr>files = (\<lambda>p. None), fs_ops = [], http_log = []\<rparr>)) (''/plug'', ''cache.json'') = None"
proof -
  let ?io = "\<lparr>makedirs_fails = False, temp_names = [''k3x9'', ''ab12''], dump_fails = False,
      replace_fails = False, remove_fails = False\<rparr>"
  let ?io2 = "\<lparr>makedirs_fails = False, temp_names = [''ab12''], dump_fails = False,
      replace_fails = True, remove_fails = True\<rparr>"
  let ?io3 = "\<lparr>makedirs_fails = False, temp_names = [''ab12''], dump_fails = False,
      replace_fails = True, remove_fails = False\<rparr>"
  let ?ioc = "\<lparr>makedirs_fails = False, temp_names = [], dump_fails = False,
      replace_fails = False, remove_fails = False\<rparr>"
  let ?iod = "\<lparr>makedirs_fails = False, temp_names = [], dump_fails = False,
      replace_fails = False, remove_fails = True\<rparr>"
  let ?t = "(''/plug'', ''cache.json'')"
  let ?tmp = "(''/plug'', ''windoc_ab12.json'')"
  let ?obj = "JObj [(''Beep'', negative_entry)]"
  let ?w = "\<lparr>files = (\<lambda>p. if p = (''/plug'', ''windoc_k3x9.json'') then Some Garbage else None),
      fs_ops = [], http_log = []\<rparr>"
  let ?v = "\<lparr>files = (\<lambda>p::path. (None :: file_content option)), fs_ops = [], http_log = []\<rparr>"
  let ?u = "\<lparr>files = (\<lambda>p. if p = ?tmp then Some Garbage else None),
      fs_ops = [], http_log = []\<rparr>"
  have nt: "\<not> startswith (snd ?t) ''windoc_''"
    by (simp add: startswith_def)
  have ok: "fst (atomic_write_json ?io ?t ?obj ?w) = None"
    by code_simp
  have ops: "fs_ops (snd (atomic_write_json ?io ?t ?obj ?w)) =
     [OpMakedirs ''/plug'', OpCreate ?tmp, OpWrite ?tmp ?obj, OpReplace ?tmp ?t]"
    by code_simp
  have bad: "fst (atomic_write_json ?io2 ?t ?obj ?v) = Some OSError"
    by code_simp
  have bad3: "fst (atomic_write_json ?io3 ?t ?obj ?v) = Some OSError"
    by code_simp
  have ops3: "fs_ops (snd (atomic_write_json ?io3 ?t ?obj ?v)) =
     [OpMakedirs ''/plug'', OpCreate ?tmp, OpWrite ?tmp ?obj, OpRemove ?tmp]"
    by code_simp
  have r1: "atomic_write_json ?io ?t ?obj ?w = (None, snd (atomic_write_json ?io ?t ?obj ?w))"
    using ok by (metis prod.collapse)
  have r2: "atomic_write_json ?io2 ?t ?obj ?v =
      (Some OSError, snd (atomic_write_json ?io2 ?t ?obj ?v))"
    using bad by (metis prod.collapse)
  have r3: "atomic_write_json ?io3 ?t ?obj ?v =
      (Some OSError, snd (atomic_write_json ?io3 ?t ?obj ?v))"
    using bad3 by (metis prod.collapse)
  from atomic_write_via_temp_file [of ?io ?t ?w ?t ?obj
      "snd (atomic_write_json ?io ?t ?obj ?w)" OSError] nt r1
  have "files (snd (atomic_write_json ?io ?t ?obj ?w)) = (files ?w)(?t \<mapsto> Doc ?obj)"
    by blast
  then have f1: "files (snd (atomic_write_json ?io ?t ?obj ?w)) ?t = Some (Doc ?obj)"
    by simp
  from atomic_write_via_temp_file [of ?io2 ?t ?v ?t ?obj
      "snd (atomic_write_json ?io2 ?t ?obj ?v)" OSError] nt r2
  have "files (snd (atomic_write_json ?io2 ?t ?obj ?v)) ?t = files ?v ?t"
    by blast
  then have f2: "files (snd (atomic_write_json ?io2 ?t ?obj ?v)) ?t = None"
    by simp
  have nr: "\<not> remove_fails ?io3" by simp
  from atomic_write_via_temp_file [of ?io3 ?t ?v ?t ?obj
      "snd (atomic_write_json ?io3 ?t ?obj ?v)" OSError] nt r3 nr
  have "files (snd (atomic_write_json ?io3 ?t ?obj ?v)) = files ?v"
    by blast
  then have f3: "files (snd (atomic_write_json ?io3 ?t ?obj ?v)) = (\<lambda>p. None)"
    by simp
  have ex: "files ?u ?tmp \<noteq> None" by simp
  have nc: "\<not> remove_fails ?ioc" by simp
  have yd: "remove_fails ?iod" by simp
  from atomic_write_via_temp_file [of ?ioc ?tmp ?u ?t ?obj ?u OSError] ex nc
  have "files (snd (cleanup_tmp ?ioc ?tmp ?u)) = (files ?u)(?tmp := None)"
    by blast
  then have c1: "files (snd (cleanup_tmp ?ioc ?tmp ?u)) ?tmp = None"
    by simp
  from atomic_write_via_temp_file [of ?iod ?tmp ?u ?t ?obj ?u OSError] ex yd
  have c2: "cleanup_tmp ?iod ?tmp ?u = (None, ?u)"
    by blast
  show ?thesis
    using nt ok ops f1 bad3 ops3 f3 c1 c2 bad f2 by blast
qed

section \<open>The ANSI/Unicode fallback\<close>

lemma init_from_name_keeps_name:
  "requested_name (fst (snd (init_from_name net name scr w))) = requested_name scr \<and>
   resolved_name (fst (snd (init_from_name net name scr w))) = resolved_name scr"
  by (simp add: init_from_name_def Let_def split: option.splits)

lemma fallback_constructor:
  assumes first: "init_from_name net (base @ [c])
            \<lparr>requested_name = base @ [c], resolved_name = None, soup = None, h2_titles = []\<rparr> w
            = (None, scr1, w1)"
      and none: "soup scr1 = None"
      and second: "init_from_name net base scr1 w1 = (None, scr2, w2)"
      and page: "soup scr2 = Some pg"
      and c: "c = CHR ''A'' \<or> c = CHR ''W''"
  shows "MSFTLearnScrapper net (base @ [c]) w =
           (Inr (scr2\<lparr>resolved_name := Some (base @ ''W'')\<rparr>), w2) \<and>
         requested_name scr2 = base @ [c]"
proof -
  have rq1: "requested_name scr1 = base @ [c]"
    using init_from_name_keeps_name [of net "base @ [c]"
        "\<lparr>requested_name = base @ [c], resolved_name = None, soup = None, h2_titles = []\<rparr>" w]
      first by simp
  have rq2: "requested_name scr2 = base @ [c]"
    using init_from_name_keeps_name [of net base scr1 w1] second rq1 by simp
  have "MSFTLearnScrapper net (base @ [c]) w =
          (Inr (scr2\<lparr>resolved_name := Some (base @ ''W'')\<rparr>), w2)"
    using first none second page c by (auto simp: MSFTLearnScrapper_def Let_def)
  then show ?thesis using rq2 by simp
qed

text \<open>
  Claim C6, as amended. When the direct search for a name ending in A or W finds no
  page and the search for the name without its last letter does, the constructor
  reports the name with W as the resolved name. For a request ending in A the
  description built without the Syntax check, or with it on a page that has a Syntax
  section, is the resolution note naming the resolved and the requested name followed
  by the page's description; for a request ending in W it is the page's description
  with no note. With the Syntax check on a page without a Syntax section the
  description is empty.
\<close>

theorem fallback_resolves_to_unicode_name:
  "init_from_name net (base @ [c])
      \<lparr>requested_name = base @ [c], resolved_name = None, soup = None, h2_titles = []\<rparr> w
      = (None, scr1, w1) \<and>
   soup scr1 = None \<and>
   init_from_name net base scr1 w1 = (None, scr2, w2) \<and> soup scr2 = Some pg \<and>
   (c = CHR ''A'' \<or> c = CHR ''W'') \<longrightarrow>
   (\<exists>scr. MSFTLearnScrapper net (base @ [c]) w = (Inr scr, w2) \<and>
      resolved_name scr = Some (base @ ''W'') \<and>
      requested_name scr = base @ [c] \<and>
      get_description scr False =
        (if c = CHR ''A''
         then ''[Docs resolved to: '' @ base @ ''W'' @ '' (requested: '' @ base @ ''A'' @ '')]''
              @ [CHR 0x0A, CHR 0x0A]
         else [])
        @ (case og_description pg of None \<Rightarrow> [] | Some t \<Rightarrow> t) \<and>
      get_description scr True =
        (if get_syntax scr = None then [] else get_description scr False))"
proof
  assume h: "init_from_name net (base @ [c])
      \<lparr>requested_name = base @ [c], resolved_name = None, soup = None, h2_titles = []\<rparr> w
      = (None, scr1, w1) \<and>
   soup scr1 = None \<and>
   init_from_name net base scr1 w1 = (None, scr2, w2) \<and> soup scr2 = Some pg \<and>
   (c = CHR ''A'' \<or> c = CHR ''W'')"
  let ?scr = "scr2\<lparr>resolved_name := Some (base @ ''W'')\<rparr>"
  have k: "MSFTLearnScrapper net (base @ [c]) w = (Inr ?scr, w2) \<and>
           requested_name scr2 = base @ [c]"
    using h by (intro fallback_constructor [of net base c w scr1 w1 scr2 w2 pg]) simp_all
  have sp: "soup ?scr = Some pg" using h by simp
  have d0: "get_description ?scr False =
        (if c = CHR ''A''
         then ''[Docs resolved to: '' @ base @ ''W'' @ '' (requested: '' @ base @ ''A'' @ '')]''
              @ [CHR 0x0A, CHR 0x0A]
         else [])
        @ (case og_description pg of None \<Rightarrow> [] | Some t \<Rightarrow> t)"
    using h k sp by (auto simp: get_description_def resolution_note_def Let_def)
  have d1: "get_description ?scr True =
        (if get_syntax ?scr = None then [] else get_description ?scr False)"
    using sp by (simp add: get_description_def)
  show "\<exists>scr. MSFTLearnScrapper net (base @ [c]) w = (Inr scr, w2) \<and>
      resolved_name scr = Some (base @ ''W'') \<and>
      requested_name scr = base @ [c] \<and>
      get_description scr False =
        (if c = CHR ''A''
         then ''[Docs resolved to: '' @ base @ ''W'' @ '' (requested: '' @ base @ ''A'' @ '')]''
              @ [CHR 0x0A, CHR 0x0A]
         else [])
        @ (case og_description pg of None \<Rightarrow> [] | Some t \<Rightarrow> t) \<and>
      get_description scr True =
        (if get_syntax scr = None then [] else get_description scr False)"
    using k d0 d1 by (intro exI [of _ ?scr]) simp
qed

theorem fallback_resolves_to_unicode_name_witness:
  "fst (init_from_name
      \<lparr>search_api = (\<lambda>n. if n = ''OpenMutex''
          then Some [\<lparr>hit_title = Some ''OpenMutexW function (synchapi.h)'',
                      hit_url = Some ''/en-us/windows/win32/api/synchapi/nf-synchapi-openmutexw''\<rparr>]
          else Some []),
       page_at = (\<lambda>u. Some \<lparr>og_description = Some ''Opens an existing named mutex object.'',
          h2_list = [\<lparr>h2_text = ''Syntax'', next_pre = Some ''HANDLE OpenMutexW();'',
                      next_element = None\<rparr>],
          p_list = []\<rparr>)\<rparr>
      ''OpenMutexA''
      \<lparr>requested_name = ''OpenMutexA'', resolved_name = None, soup = None, h2_titles = []\<rparr>
      \<lparr>files = (\<lambda>p. None), fs_ops = [], http_log = []\<rparr>) = None \<and>
   (\<exists>scr w'. MSFTLearnScrapper
      \<lparr>search_api = (\<lambda>n. if n = ''OpenMutex''
          then Some [\<lparr>hit_title = Some ''OpenMutexW function (synchapi.h)'',
                      hit_url = Some ''/en-us/windows/win32/api/synchapi/nf-synchapi-openmutexw''\<rparr>]
          else Some []),
       page_at = (\<lambda>u. Some \<lparr>og_description = Some ''Opens an existing named mutex object.'',
          h2_list = [\<lparr>h2_text = ''Syntax'', next_pre = Some ''HANDLE OpenMutexW();'',
                      next_element = None\<rparr>],
          p_list = []\<rparr>)\<rparr>
      ''OpenMutexA''
      \<lparr>files = (\<lambda>p. None), fs_ops = [], http_log = []\<rparr> = (Inr scr, w') \<and>
      resolved_name scr = Some ''OpenMutexW'' \<and>
      get_description scr False =
        ''[Docs resolved to: OpenMutexW (requested: OpenMutexA)]'' @ [CHR 0x0A, CHR 0x0A] @
        ''Opens an existing named mutex object.'')"
proof -
  let ?pg = "\<lparr>og_description = Some ''Opens an existing named mutex object.'',
          h2_list = [\<lparr>h2_text = ''Syntax'', next_pre = Some ''HANDLE OpenMutexW();'',
                      next_element = None\<rparr>],
          p_list = []\<rparr>"
  let ?net = "\<lparr>search_api = (\<lambda>n. if n = ''OpenMutex''
          then Some [\<lparr>hit_title = Some ''OpenMutexW function (synchapi.h)'',
                      hit_url = Some ''/en-us/windows/win32/api/synchapi/nf-synchapi-openmutexw''\<rparr>]
          else Some []),
       page_at = (\<lambda>u::string. Some ?pg)\<rparr>"
  let ?scr0 = "\<lparr>requested_name = ''OpenMutexA'', resolved_name = None, soup = None,
                h2_titles = []\<rparr>"
  let ?w0 = "\<lparr>files = (\<lambda>p::path. (None :: file_content option)), fs_ops = [], http_log = []\<rparr>"
  let ?r1 = "init_from_name ?net ''OpenMutexA'' ?scr0 ?w0"
  let ?scr1 = "fst (snd ?r1)"
  let ?w1 = "snd (snd ?r1)"
  let ?r2 = "init_from_name ?net ''OpenMutex'' ?scr1 ?w1"
  let ?scr2 = "fst (snd ?r2)"
  let ?w2 = "snd (snd ?r2)"
  have a1: "fst ?r1 = None" by code_simp
  have a2: "soup ?scr1 = None" by code_simp
  have a3: "fst ?r2 = None" by code_simp
  have a4: "soup ?scr2 = Some ?pg" by code_simp
  have h1: "?r1 = (None, ?scr1, ?w1)" using a1 by (metis prod.collapse)
  have h2: "?r2 = (None, ?scr2, ?w2)" using a3 by (metis prod.collapse)
  have e: "''OpenMutex'' @ [CHR ''A''] = ''OpenMutexA''" by simp
  note th = fallback_resolves_to_unicode_name [of ?net "''OpenMutex''" "CHR ''A''" ?w0 ?scr1 ?w1
      ?scr2 ?w2 ?pg, unfolded e]
  from th h1 a2 h2 a4 obtain scr where
    s: "MSFTLearnScrapper ?net ''OpenMutexA'' ?w0 = (Inr scr, ?w2)"
       "resolved_name scr = Some (''OpenMutex'' @ ''W'')"
       "get_description scr False =
        (if CHR ''A'' = CHR ''A''
         then ''[Docs resolved to: '' @ ''OpenMutex'' @ ''W'' @ '' (requested: '' @ ''OpenMutex''
              @ ''A'' @ '')]'' @ [CHR 0x0A, CHR 0x0A]
         else [])
        @ (case og_description ?pg of None \<Rightarrow> [] | Some t \<Rightarrow> t)"
    by blast
  have r: "resolved_name scr = Some ''OpenMutexW''" using s(2) by simp
  have d: "get_description scr False =
        ''[Docs resolved to: OpenMutexW (requested: OpenMutexA)]'' @ [CHR 0x0A, CHR 0x0A] @
        ''Opens an existing named mutex object.''"
    using s(3) by simp
  show ?thesis
    using a1 s(1) r d by blast
qed

theorem checked_description_counterexample:
  "(case fst (MSFTLearnScrapper
      \<lparr>search_api = (\<lambda>n. if n = ''OpenMutex''
          then Some [\<lparr>hit_title = Some ''OpenMutexW function (synchapi.h)'',
                      hit_url = Some ''/en-us/windows/win32/api/synchapi/nf-synchapi-openmutexw''\<rparr>]
          else Some []),
       page_at = (\<lambda>u. Some \<lparr>og_description = Some ''Opens an existing named mutex object.'',
          h2_list = [\<lparr>h2_text = ''Remarks'', next_pre = None, next_element = Some ''p''\<rparr>],
          p_list = []\<rparr>)\<rparr>
      ''OpenMutexA''
      \<lparr>files = (\<lambda>p. None), fs_ops = [], http_log = []\<rparr>) of
      Inl e \<Rightarrow> False
    | Inr scr \<Rightarrow>
        soup scr \<noteq> None \<and> requested_name scr = ''OpenMutexA'' \<and>
        resolved_name scr = Some ''OpenMutexW'' \<and>
        get_description scr True = [])"
  by code_simp

section \<open>Properties of the lookup worker\<close>

lemma init_from_name_world:
  "files (snd (snd (init_from_name net name scr w))) = files w \<and>
   fs_ops (snd (snd (init_from_name net name scr w))) = fs_ops w \<and>
   (\<exists>rest. http_log (snd (snd (init_from_name net name scr w))) = http_log w @ Search name # rest)"
  by (simp add: init_from_name_def Let_def split: option.splits)

lemma scrapper_world:
  "files (snd (MSFTLearnScrapper net name w)) = files w \<and>
   fs_ops (snd (MSFTLearnScrapper net name w)) = fs_ops w \<and>
   (\<exists>rest. http_log (snd (MSFTLearnScrapper net name w)) = http_log w @ Search name # rest)"
proof -
  let ?scr0 = "\<lparr>requested_name = name, resolved_name = None, soup = None, h2_titles = []\<rparr>"
  obtain e1 scr1 w1 where r1: "init_from_name net name ?scr0 w = (e1, scr1, w1)"
    by (cases "init_from_name net name ?scr0 w") auto
  from init_from_name_world [of net name ?scr0 w] r1
  obtain rest1 where k1: "files w1 = files w" "fs_ops w1 = fs_ops w"
      "http_log w1 = http_log w @ Search name # rest1"
    by auto
  obtain e2 scr2 w2 where r2: "init_from_name net (butlast name) scr1 w1 = (e2, scr2, w2)"
    by (cases "init_from_name net (butlast name) scr1 w1") auto
  from init_from_name_world [of net "butlast name" scr1 w1] r2
  obtain rest2 where k2: "files w2 = files w1" "fs_ops w2 = fs_ops w1"
      "http_log w2 = http_log w1 @ Search (butlast name) # rest2"
    by auto
  have "snd (MSFTLearnScrapper net name w) = w1 \<or> snd (MSFTLearnScrapper net name w) = w2"
    using r1 r2 by (auto simp: MSFTLearnScrapper_def Let_def split: option.splits)
  then show ?thesis
    using k1 k2 by auto
qed

lemma query_docs_world: "snd (query_docs net wk w) = snd (MSFTLearnScrapper net (wk_function_name wk) w)"
  by (simp add: query_docs_def split: prod.splits sum.splits)

lemma query_docs_failed:
  assumes "MSFTLearnScrapper net (wk_function_name wk) w = (r, w1)"
      and "case r of Inl e \<Rightarrow> True | Inr scr \<Rightarrow> soup scr = None \<or> get_syntax scr = None"
  shows "query_docs net wk w = (wk\<lparr>wk_success := False\<rparr>, w1)"
  using assms by (auto simp: query_docs_def found_function_docs_def split: sum.splits)

lemma query_docs_shape:
  "fst (query_docs net wk w) = wk\<lparr>wk_success := False\<rparr> \<or>
   (\<exists>a b c. fst (query_docs net wk w) =
      wk\<lparr>wk_success := True, wk_syntax := JStr a, wk_description := JStr b,
         wk_return_value := JStr c\<rparr>)"
  by (auto simp: query_docs_def split: prod.splits sum.splits)

lemma load_cache_files: "files w1 = files w \<Longrightarrow> load_cache p w1 = load_cache p w"
  by (simp add: load_cache_def)

lemma dict_get_object:
  "dict_get obj k dflt = Inr v \<Longrightarrow> \<exists>kvs. obj = JObj kvs \<and> v = obj_get kvs k dflt"
  by (cases obj) (simp_all add: dict_get_def)

lemma read_cached_none: "(read_cached entry wk = None) = (\<not> well_formed_entry entry)"
  by (cases entry) (auto simp: read_cached_def well_formed_entry_def)

lemma update_not_empty: "AList.update k v al \<noteq> []"
  by (cases al) simp_all

lemma load_written:
  "files w p = Some (Doc (JObj (AList.update k v al))) \<Longrightarrow>
   load_cache p w = JObj (AList.update k v al)"
  by (simp add: load_cache_def py_or_def update_not_empty)

lemma obj_get_updated: "obj_get (AList.update k v al) k dflt = v"
  by (simp add: obj_get_def update_conv')

lemma py_or_str: "py_or (JStr a) (JStr []) = JStr a"
  by (simp add: py_or_def)

text \<open>The shape of a run that misses the cache.\<close>

lemma run_miss:
  assumes name: "wk_function_name wk \<noteq> []"
      and nt: "\<not> startswith (snd (wk_cache_file wk)) ''windoc_''"
      and ld: "load_cache (wk_cache_file wk) w = JObj kvs"
      and miss: "read_cached (obj_get kvs (wk_function_name wk) JNull) wk = None"
  shows "\<exists>e w2 rest.
     run net io wk w = (e, fst (query_docs net wk w), w2) \<and>
     http_log w2 = http_log w @ Search (wk_function_name wk) # rest \<and>
     (e = None \<longrightarrow>
        files w2 (wk_cache_file wk) =
          Some (Doc (JObj (AList.update (wk_function_name wk)
                             (cache_entry (fst (query_docs net wk w))) kvs)))) \<and>
     (e \<noteq> None \<longrightarrow> files w2 (wk_cache_file wk) = files w (wk_cache_file wk))"
proof -
  let ?cf = "wk_cache_file wk"
  let ?n = "wk_function_name wk"
  obtain wk1 w1 where q: "query_docs net wk w = (wk1, w1)"
    by (cases "query_docs net wk w")
  have w1: "w1 = snd (MSFTLearnScrapper net ?n w)"
    using query_docs_world [of net wk w] q by simp
  from scrapper_world [of net ?n w] w1
  obtain rest where k: "files w1 = files w" "fs_ops w1 = fs_ops w"
      "http_log w1 = http_log w @ Search ?n # rest"
    by auto
  have ld1: "load_cache ?cf w1 = JObj kvs"
    using load_cache_files [OF k(1)] ld by simp
  let ?cache = "JObj (AList.update ?n (cache_entry wk1) kvs)"
  obtain e w2 where aw: "atomic_write_json io ?cf ?cache w1 = (e, w2)"
    by (cases "atomic_write_json io ?cf ?cache w1")
  have rn: "run net io wk w = (e, wk1, w2)"
    using name ld ld1 miss q aw by (simp add: run_def dict_get_def dict_set_def)
  have hl: "http_log w2 = http_log w1"
    using aw by (auto simp: atomic_write_json_def write_and_replace_def os_replace_def
        cleanup_tmp_def remove_tmp_def Let_def split: option.splits if_splits prod.splits)
  have ok: "e = None \<longrightarrow> files w2 ?cf = Some (Doc ?cache)"
  proof
    assume "e = None"
    then have "atomic_write_json io ?cf ?cache w1 = (None, w2)" using aw by simp
    from atomic_write_success [OF nt this] show "files w2 ?cf = Some (Doc ?cache)"
      by auto
  qed
  have bad: "e \<noteq> None \<longrightarrow> files w2 ?cf = files w ?cf"
  proof
    assume "e \<noteq> None"
    then obtain x where "atomic_write_json io ?cf ?cache w1 = (Some x, w2)" using aw by auto
    from atomic_write_failure [OF nt this] show "files w2 ?cf = files w ?cf"
      using k(1) by simp
  qed
  show ?thesis
    using rn hl k(3) ok bad q by auto
qed

text \<open>
  Claim C3. A fresh worker that misses the cache and whose fetch raises, finds no page
  or finds a page without a Syntax section ends with \<open>success = False\<close> and empty
  syntax, description and return-value strings; the entry it hands to the cache is
  the negative entry with empty strings, and when the write returns that entry is
  what the cache file holds under the function name.
\<close>

theorem failed_fetch_caches_empty_negative_entry:
  assumes name: "name \<noteq> []"
      and nt: "\<not> startswith (snd cf) ''windoc_''"
      and ld: "dict_get (load_cache cf w) name JNull = Inr entry"
      and miss: "read_cached entry (ScrapperThread_init name rid cf) = None"
      and fetch: "MSFTLearnScrapper net name w = (r, w1)"
      and fails: "case r of Inl e \<Rightarrow> True | Inr scr \<Rightarrow> soup scr = None \<or> get_syntax scr = None"
  shows "\<exists>e wk' w2.
     run net io (ScrapperThread_init name rid cf) w = (e, wk', w2) \<and>
     wk_success wk' = False \<and> wk_syntax wk' = JStr [] \<and> wk_description wk' = JStr [] \<and>
     wk_return_value wk' = JStr [] \<and>
     cache_entry wk' = negative_entry \<and>
     (e = None \<longrightarrow>
        (\<exists>kvs. files w2 cf = Some (Doc (JObj kvs)) \<and> map_of kvs name = Some negative_entry))"
proof -
  let ?wk = "ScrapperThread_init name rid cf"
  have f: "wk_function_name ?wk = name" "wk_cache_file ?wk = cf"
    by (simp_all add: ScrapperThread_init_def)
  from dict_get_object [OF ld] obtain kvs where
    kvs: "load_cache cf w = JObj kvs" "entry = obj_get kvs name JNull"
    by auto
  have q: "query_docs net ?wk w = (?wk\<lparr>wk_success := False\<rparr>, w1)"
    using query_docs_failed [of net ?wk w r w1] fetch fails f by simp
  let ?wk' = "?wk\<lparr>wk_success := False\<rparr>"
  have ce: "cache_entry ?wk' = negative_entry"
    by (simp add: cache_entry_def negative_entry_def ScrapperThread_init_def)
  from run_miss [of ?wk w kvs net io] name nt kvs miss f q
  obtain e w2 where
    rn: "run net io ?wk w = (e, ?wk', w2)" and
    ok: "e = None \<longrightarrow> files w2 cf = Some (Doc (JObj (AList.update name (cache_entry ?wk') kvs)))"
    by auto
  have mp: "map_of (AList.update name negative_entry kvs) name = Some negative_entry"
    by (simp add: update_conv')
  have per: "e = None \<longrightarrow>
      (\<exists>kvs. files w2 cf = Some (Doc (JObj kvs)) \<and> map_of kvs name = Some negative_entry)"
    using ok ce mp by auto
  have fl: "wk_success ?wk' = False \<and> wk_syntax ?wk' = JStr [] \<and> wk_description ?wk' = JStr [] \<and>
     wk_return_value ?wk' = JStr []"
    by (simp add: ScrapperThread_init_def)
  show ?thesis
    using rn fl ce per by blast
qed

text \<open>
  Claim C9. When the cache file holds, under the requested name, an entry that is not
  well formed (not an object, or with a \<open>found\<close> field that is neither exactly true
  nor exactly false), the worker queries the network, and when its write returns the
  file holds the same mapping with that entry replaced by the new, well-formed outcome.
\<close>

theorem malformed_entry_refetched_and_overwritten:
  assumes name: "wk_function_name wk \<noteq> []"
      and nt: "\<not> startswith (snd (wk_cache_file wk)) ''windoc_''"
      and held: "files w (wk_cache_file wk) = Some (Doc (JObj kvs))"
      and entry: "map_of kvs (wk_function_name wk) = Some entry"
      and bad: "\<not> well_formed_entry entry"
  shows "\<exists>e wk' w' rest.
     run net io wk w = (e, wk', w') \<and>
     http_log w' = http_log w @ Search (wk_function_name wk) # rest \<and>
     well_formed_entry (cache_entry wk') \<and>
     cache_entry wk' \<noteq> entry \<and>
     (e = None \<longrightarrow>
        files w' (wk_cache_file wk) =
          Some (Doc (JObj (AList.update (wk_function_name wk) (cache_entry wk') kvs))) \<and>
        map_of (AList.update (wk_function_name wk) (cache_entry wk') kvs) (wk_function_name wk) =
          Some (cache_entry wk'))"
proof -
  have ne: "kvs \<noteq> []" using entry by auto
  have ld: "load_cache (wk_cache_file wk) w = JObj kvs"
    using held ne by (simp add: load_cache_def py_or_def)
  have og: "obj_get kvs (wk_function_name wk) JNull = entry"
    using entry by (simp add: obj_get_def)
  have miss: "read_cached (obj_get kvs (wk_function_name wk) JNull) wk = None"
    using bad og by (simp add: read_cached_none)
  let ?wk' = "fst (query_docs net wk w)"
  from run_miss [OF name nt ld miss, of net io]
  obtain e w' rest where
    rn: "run net io wk w = (e, ?wk', w')" and
    hl: "http_log w' = http_log w @ Search (wk_function_name wk) # rest" and
    ok: "e = None \<longrightarrow> files w' (wk_cache_file wk) =
          Some (Doc (JObj (AList.update (wk_function_name wk) (cache_entry ?wk') kvs)))"
    by blast
  have wf: "well_formed_entry (cache_entry ?wk')"
    by (simp add: well_formed_entry_def cache_entry_def obj_get_def)
  have df: "cache_entry ?wk' \<noteq> entry" using wf bad by auto
  have mp: "map_of (AList.update (wk_function_name wk) (cache_entry ?wk') kvs)
              (wk_function_name wk) = Some (cache_entry ?wk')"
    by (simp add: update_conv')
  show ?thesis
    using rn hl wf df ok mp by blast
qed

subsection \<open>Repeated lookups\<close>

lemma read_cached_other_worker:
  "read_cached entry (ScrapperThread_init name r1 cf) = Some wk1 \<Longrightarrow>
   read_cached entry (ScrapperThread_init name r2 cf) = Some (wk1\<lparr>wk_req_id := r2\<rparr>)"
  by (cases entry) (auto simp: read_cached_def ScrapperThread_init_def split: if_splits)

lemma read_own_entry:
  assumes "wk1 = fst (query_docs net (ScrapperThread_init name r1 cf) w)"
  shows "read_cached (cache_entry wk1) (ScrapperThread_init name r2 cf) =
           Some (wk1\<lparr>wk_req_id := r2\<rparr>)"
  using query_docs_shape [of net "ScrapperThread_init name r1 cf" w] assms
  by (auto simp: read_cached_def cache_entry_def obj_get_def py_or_str ScrapperThread_init_def)

lemma run_hit:
  assumes "wk_function_name wk \<noteq> []"
      and "load_cache (wk_cache_file wk) w = JObj kvs"
      and "read_cached (obj_get kvs (wk_function_name wk) JNull) wk = Some wk'"
  shows "run net io wk w = (None, wk', w)"
  using assms by (simp add: run_def dict_get_def)

lemma second_run_from_cache:
  assumes nt: "\<not> startswith (snd cf) ''windoc_''"
      and first: "run net io (ScrapperThread_init name r1 cf) w = (None, wk1, w1)"
  shows "run net2 io2 (ScrapperThread_init name r2 cf) w1 = (None, wk1\<lparr>wk_req_id := r2\<rparr>, w1)"
proof (cases "name = []")
  case True
  then show ?thesis
    using first by (auto simp: run_def ScrapperThread_init_def)
next
  case name: False
  let ?a = "ScrapperThread_init name r1 cf"
  let ?b = "ScrapperThread_init name r2 cf"
  have fa: "wk_function_name ?a = name" "wk_cache_file ?a = cf"
    and fb: "wk_function_name ?b = name" "wk_cache_file ?b = cf"
    by (simp_all add: ScrapperThread_init_def)
  obtain kvs where ld: "load_cache cf w = JObj kvs"
    using first name fa
    by (cases "load_cache cf w") (auto simp: run_def dict_get_def)
  show ?thesis
  proof (cases "read_cached (obj_get kvs name JNull) ?a")
    case (Some hit)
    have "run net io ?a w = (None, hit, w)"
      using run_hit [of ?a w kvs hit net io] name ld Some fa by simp
    then have eq: "wk1 = hit" "w1 = w" using first by simp_all
    have "read_cached (obj_get kvs name JNull) ?b = Some (wk1\<lparr>wk_req_id := r2\<rparr>)"
      using read_cached_other_worker [OF Some, of r2] eq by simp
    then show ?thesis
      using run_hit [of ?b w kvs "wk1\<lparr>wk_req_id := r2\<rparr>" net2 io2] name ld fb eq by simp
  next
    case None
    from run_miss [of ?a w kvs net io] name nt ld None fa
    obtain e w2 where
      rn: "run net io ?a w = (e, fst (query_docs net ?a w), w2)" and
      ok: "e = None \<longrightarrow> files w2 cf =
            Some (Doc (JObj (AList.update name (cache_entry (fst (query_docs net ?a w))) kvs)))"
      by auto
    have eq: "e = None" "wk1 = fst (query_docs net ?a w)" "w2 = w1"
      using rn first by simp_all
    let ?kvs' = "AList.update name (cache_entry wk1) kvs"
    have "files w1 cf = Some (Doc (JObj ?kvs'))" using ok eq by simp
    then have ld1: "load_cache cf w1 = JObj ?kvs'" by (rule load_written)
    have "read_cached (obj_get ?kvs' name JNull) ?b = Some (wk1\<lparr>wk_req_id := r2\<rparr>)"
      using read_own_entry [OF eq(2), of r2] by (simp add: obj_get_updated)
    then show ?thesis
      using run_hit [of ?b w1 ?kvs' "wk1\<lparr>wk_req_id := r2\<rparr>" net2 io2] name ld1 fb by simp
  qed
qed

lemma well_formed_entry_kept:
  assumes name: "wk_function_name wk \<noteq> []"
      and held: "files w (wk_cache_file wk) = Some (Doc (JObj kvs))"
      and entry: "map_of kvs (wk_function_name wk) = Some entry"
      and good: "well_formed_entry entry"
  shows "fst (run net io wk w) = None \<and> snd (snd (run net io wk w)) = w"
proof -
  have ne: "kvs \<noteq> []" using entry by auto
  have ld: "load_cache (wk_cache_file wk) w = JObj kvs"
    using held ne by (simp add: load_cache_def py_or_def)
  have og: "obj_get kvs (wk_function_name wk) JNull = entry"
    using entry by (simp add: obj_get_def)
  obtain wk' where "read_cached entry wk = Some wk'"
    using good read_cached_none [of entry wk] by auto
  then have "run net io wk w = (None, wk', w)"
    using run_hit [of wk w kvs wk' net io] name ld og by simp
  then show ?thesis by simp
qed

text \<open>
  Claim C4, as amended. When a lookup for a name returns, a second lookup for the same
  name on the resulting files, whatever the network and the file system would then
  answer, returns the same success flag and the same three texts and leaves the world
  as it is: no request is sent and no file operation happens. A lookup for a key that
  is present in the cache with a well-formed entry returns without changing the world,
  so that entry is never overwritten.
\<close>

theorem repeated_lookup_served_from_cache:
  "(\<not> startswith (snd cf) ''windoc_'' \<and>
    run net io (ScrapperThread_init name r1 cf) w = (None, wk1, w1) \<longrightarrow>
      run net2 io2 (ScrapperThread_init name r2 cf) w1 = (None, wk1\<lparr>wk_req_id := r2\<rparr>, w1)) \<and>
   (wk_function_name wk \<noteq> [] \<and> files w (wk_cache_file wk) = Some (Doc (JObj kvs)) \<and>
    map_of kvs (wk_function_name wk) = Some entry \<and> well_formed_entry entry \<longrightarrow>
      fst (run net io wk w) = None \<and> snd (snd (run net io wk w)) = w)"
  using second_run_from_cache [of cf net io name r1 w wk1 w1 net2 io2 r2]
    well_formed_entry_kept [of wk w kvs entry net io]
  by blast

theorem failed_fetch_caches_empty_negative_entry_witness:
  "''POINT'' \<noteq> [] \<and> \<not> startswith (snd (''/plug'', ''cache.json'')) ''windoc_'' \<and>
   dict_get (load_cache (''/plug'', ''cache.json'')
      \<lparr>files = (\<lambda>p. None), fs_ops = [], http_log = []\<rparr>) ''POINT'' JNull = Inr JNull \<and>
   (\<exists>e wk' w2.
      run \<lparr>search_api = (\<lambda>n. Some [\<lparr>hit_title = Some ''POINT structure (windef.h)'',
              hit_url = Some ''/en-us/windows/win32/api/windef/ns-windef-point''\<rparr>]),
           page_at = (\<lambda>u. Some \<lparr>og_description = Some ''Defines a point.'',
              h2_list = [\<lparr>h2_text = ''Members'', next_pre = None, next_element = Some ''x''\<rparr>],
              p_list = [(Some ''Members'', ''x'')]\<rparr>)\<rparr>
          \<lparr>makedirs_fails = False, temp_names = [''ab12''], dump_fails = False,
           replace_fails = False, remove_fails = False\<rparr>
          (ScrapperThread_init ''POINT'' 1 (''/plug'', ''cache.json''))
          \<lparr>files = (\<lambda>p. None), fs_ops = [], http_log = []\<rparr> = (e, wk', w2) \<and>
      e = None \<and> wk_success wk' = False \<and> wk_syntax wk' = JStr [] \<and>
      wk_description wk' = JStr [] \<and> wk_return_value wk' = JStr [] \<and>
      (\<exists>kvs. files w2 (''/plug'', ''cache.json'') = Some (Doc (JObj kvs)) \<and>
             map_of kvs ''POINT'' = Some negative_entry))"
proof -
  let ?net = "\<lparr>search_api = (\<lambda>n::string. Some [\<lparr>hit_title = Some ''POINT structure (windef.h)'',
              hit_url = Some ''/en-us/windows/win32/api/windef/ns-windef-point''\<rparr>]),
           page_at = (\<lambda>u::string. Some \<lparr>og_description = Some ''Defines a point.'',
              h2_list = [\<lparr>h2_text = ''Members'', next_pre = None, next_element = Some ''x''\<rparr>],
              p_list = [(Some ''Members'', ''x'')]\<rparr>)\<rparr>"
  let ?io = "\<lparr>makedirs_fails = False, temp_names = [''ab12''], dump_fails = False,
           replace_fails = False, remove_fails = False\<rparr>"
  let ?cf = "(''/plug'', ''cache.json'')"
  let ?w = "\<lparr>files = (\<lambda>p::path. (None :: file_content option)), fs_ops = [], http_log = []\<rparr>"
  let ?wk = "ScrapperThread_init ''POINT'' 1 ?cf"
  let ?m = "MSFTLearnScrapper ?net ''POINT'' ?w"
  have a: "''POINT'' \<noteq> []" by simp
  have b: "\<not> startswith (snd ?cf) ''windoc_''" by (simp add: startswith_def)
  have c: "dict_get (load_cache ?cf ?w) ''POINT'' JNull = Inr JNull"
    by (simp add: load_cache_def dict_get_def obj_get_def)
  have d: "read_cached JNull ?wk = None" by (simp add: read_cached_def)
  have e: "?m = (fst ?m, snd ?m)" by simp
  have f: "case fst ?m of Inl e \<Rightarrow> True | Inr scr \<Rightarrow> soup scr = None \<or> get_syntax scr = None"
    by code_simp
  have g: "fst (run ?net ?io ?wk ?w) = None" by code_simp
  from failed_fetch_caches_empty_negative_entry [OF a b c d e f, of ?io]
  obtain x wk' w2 where
    r: "run ?net ?io ?wk ?w = (x, wk', w2)"
       "wk_success wk' = False" "wk_syntax wk' = JStr []" "wk_description wk' = JStr []"
       "wk_return_value wk' = JStr []"
       "x = None \<longrightarrow> (\<exists>kvs. files w2 ?cf = Some (Doc (JObj kvs)) \<and>
                            map_of kvs ''POINT'' = Some negative_entry)"
    by blast
  have x: "x = None" using g r(1) by simp
  show ?thesis
    using a b c r x by blast
qed

theorem malformed_entry_refetched_and_overwritten_witness:
  "\<not> well_formed_entry (JObj [(''found'', JNum 1), (''syntax'', JStr ''stale'')]) \<and>
   (\<exists>e wk' w' rest.
      run \<lparr>search_api = (\<lambda>n. Some [\<lparr>hit_title = Some ''Beep function (utilapiset.h)'',
              hit_url = Some ''/en-us/windows/win32/api/utilapiset/nf-utilapiset-beep''\<rparr>]),
           page_at = (\<lambda>u. Some \<lparr>og_description = Some ''Makes a sound.'',
              h2_list = [\<lparr>h2_text = ''Syntax'', next_pre = Some ''BOOL Beep();'',
                          next_element = None\<rparr>],
              p_list = [(Some ''Return value'', ''Nonzero on success.'')]\<rparr>)\<rparr>
          \<lparr>makedirs_fails = False, temp_names = [''ab12''], dump_fails = False,
           replace_fails = False, remove_fails = False\<rparr>
          (ScrapperThread_init ''Beep'' 7 (''/plug'', ''cache.json''))
          \<lparr>files = (\<lambda>p. if p = (''/plug'', ''cache.json'')
                          then Some (Doc (JObj
                            [(''Beep'', JObj [(''found'', JNum 1), (''syntax'', JStr ''stale'')]),
                             (''Sleep'', negative_entry)]))
                          else None),
           fs_ops = [], http_log = []\<rparr> = (e, wk', w') \<and>
      e = None \<and>
      http_log w' = [] @ Search ''Beep'' # rest \<and>
      files w' (''/plug'', ''cache.json'') =
        Some (Doc (JObj
          [(''Beep'', JObj [(''found'', JBool True), (''syntax'', JStr ''BOOL Beep();''),
                           (''description'', JStr ''Makes a sound.''),
                           (''return_value'', JStr ''Nonzero on success.'')]),
           (''Sleep'', negative_entry)])))"
proof -
  let ?net = "\<lparr>search_api = (\<lambda>n::string. Some [\<lparr>hit_title = Some ''Beep function (utilapiset.h)'',
              hit_url = Some ''/en-us/windows/win32/api/utilapiset/nf-utilapiset-beep''\<rparr>]),
           page_at = (\<lambda>u::string. Some \<lparr>og_description = Some ''Makes a sound.'',
              h2_list = [\<lparr>h2_text = ''Syntax'', next_pre = Some ''BOOL Beep();'',
                          next_element = None\<rparr>],
              p_list = [(Some ''Return value'', ''Nonzero on success.'')]\<rparr>)\<rparr>"
  let ?io = "\<lparr>makedirs_fails = False, temp_names = [''ab12''], dump_fails = False,
           replace_fails = False, remove_fails = False\<rparr>"
  let ?cf = "(''/plug'', ''cache.json'')"
  let ?old = "JObj [(''found'', JNum 1), (''syntax'', JStr ''stale'')]"
  let ?kvs = "[(''Beep'', ?old), (''Sleep'', negative_entry)]"
  let ?w = "\<lparr>files = (\<lambda>p. if p = ?cf then Some (Doc (JObj ?kvs)) else None),
             fs_ops = [], http_log = []\<rparr>"
  let ?wk = "ScrapperThread_init ''Beep'' 7 ?cf"
  have f: "wk_function_name ?wk = ''Beep''" "wk_cache_file ?wk = ?cf"
    by (simp_all add: ScrapperThread_init_def)
  have a: "wk_function_name ?wk \<noteq> []" using f by simp
  have b: "\<not> startswith (snd (wk_cache_file ?wk)) ''windoc_''"
    using f by (simp add: startswith_def)
  have c: "files ?w (wk_cache_file ?wk) = Some (Doc (JObj ?kvs))" using f by simp
  have d: "map_of ?kvs (wk_function_name ?wk) = Some ?old" using f by simp
  have e: "\<not> well_formed_entry ?old"
    by (simp add: well_formed_entry_def obj_get_def)
  have g: "fst (run ?net ?io ?wk ?w) = None" by code_simp
  have h: "files (snd (snd (run ?net ?io ?wk ?w))) ?cf =
        Some (Doc (JObj
          [(''Beep'', JObj [(''found'', JBool True), (''syntax'', JStr ''BOOL Beep();''),
                           (''description'', JStr ''Makes a sound.''),
                           (''return_value'', JStr ''Nonzero on success.'')]),
           (''Sleep'', negative_entry)]))"
    by code_simp
  from malformed_entry_refetched_and_overwritten [OF a b c d e, of ?net ?io]
  obtain x wk' w' rest where
    r: "run ?net ?io ?wk ?w = (x, wk', w')"
       "http_log w' = http_log ?w @ Search (wk_function_name ?wk) # rest"
    by blast
  have x: "x = None" using g r(1) by simp
  have l: "http_log w' = [] @ Search ''Beep'' # rest" using r(2) f by simp
  have k: "files w' ?cf = Some (Doc (JObj
          [(''Beep'', JObj [(''found'', JBool True), (''syntax'', JStr ''BOOL Beep();''),
                           (''description'', JStr ''Makes a sound.''),
                           (''return_value'', JStr ''Nonzero on success.'')]),
           (''Sleep'', negative_entry)]))"
    using h r(1) by simp
  show ?thesis
    using e r(1) x l k by blast
qed

theorem repeated_lookup_served_from_cache_witness:
  "\<not> startswith (snd (''/plug'', ''cache.json'')) ''windoc_'' \<and>
   fst (run
     \<lparr>search_api = (\<lambda>n. Some [\<lparr>hit_title = Some ''Beep function (utilapiset.h)'',
         hit_url = Some ''/en-us/windows/win32/api/utilapiset/nf-utilapiset-beep''\<rparr>]),
      page_at = (\<lambda>u. Some \<lparr>og_description = Some ''Makes a sound.'',
         h2_list = [\<lparr>h2_text = ''Syntax'', next_pre = Some ''BOOL Beep();'',
                     next_element = None\<rparr>],
         p_list = [(Some ''Return value'', ''Nonzero on success.'')]\<rparr>)\<rparr>
     \<lparr>makedirs_fails = False, temp_names = [''ab12''], dump_fails = False,
      replace_fails = False, remove_fails = False\<rparr>
     (ScrapperThread_init ''Beep'' 1 (''/plug'', ''cache.json''))
     \<lparr>files = (\<lambda>p. None), fs_ops = [], http_log = []\<rparr>) = None \<and>
   (\<exists>wk1 w1.
      run \<lparr>search_api = (\<lambda>n. None), page_at = (\<lambda>u. None)\<rparr>
          \<lparr>makedirs_fails = True, temp_names = [], dump_fails = True,
           replace_fails = True, remove_fails = True\<rparr>
          (ScrapperThread_init ''Beep'' 2 (''/plug'', ''cache.json'')) w1 =
        (None, wk1\<lparr>wk_req_id := 2\<rparr>, w1) \<and>
      wk_success wk1 = True \<and> wk_syntax wk1 = JStr ''BOOL Beep();'' \<and>
      http_log w1 = [Search ''Beep'',
        GetPage ''https://learn.microsoft.com/en-us/windows/win32/api/utilapiset/nf-utilapiset-beep''])"
proof -
  let ?net = "\<lparr>search_api = (\<lambda>n::string. Some [\<lparr>hit_title = Some ''Beep function (utilapiset.h)'',
         hit_url = Some ''/en-us/windows/win32/api/utilapiset/nf-utilapiset-beep''\<rparr>]),
      page_at = (\<lambda>u::string. Some \<lparr>og_description = Some ''Makes a sound.'',
         h2_list = [\<lparr>h2_text = ''Syntax'', next_pre = Some ''BOOL Beep();'',
                     next_element = None\<rparr>],
         p_list = [(Some ''Return value'', ''Nonzero on success.'')]\<rparr>)\<rparr>"
  let ?io = "\<lparr>makedirs_fails = False, temp_names = [''ab12''], dump_fails = False,
      replace_fails = False, remove_fails = False\<rparr>"
  let ?net2 = "\<lparr>search_api = (\<lambda>n::string. (None :: search_hit list option)),
      page_at = (\<lambda>u::string. (None :: soup_page option))\<rparr>"
  let ?io2 = "\<lparr>makedirs_fails = True, temp_names = [], dump_fails = True,
           replace_fails = True, remove_fails = True\<rparr>"
  let ?cf = "(''/plug'', ''cache.json'')"
  let ?w = "\<lparr>files = (\<lambda>p::path. (None :: file_content option)), fs_ops = [], http_log = []\<rparr>"
  let ?r = "run ?net ?io (ScrapperThread_init ''Beep'' 1 ?cf) ?w"
  let ?wk1 = "fst (snd ?r)"
  let ?w1 = "snd (snd ?r)"
  have b: "\<not> startswith (snd ?cf) ''windoc_''" by (simp add: startswith_def)
  have g: "fst ?r = None" by code_simp
  have r: "?r = (None, ?wk1, ?w1)" using g by (metis prod.collapse)
  have s: "wk_success ?wk1 = True \<and> wk_syntax ?wk1 = JStr ''BOOL Beep();''" by code_simp
  have l: "http_log ?w1 = [Search ''Beep'',
        GetPage ''https://learn.microsoft.com/en-us/windows/win32/api/utilapiset/nf-utilapiset-beep'']"
    by code_simp
  from repeated_lookup_served_from_cache [of ?cf ?net ?io "''Beep''" 1 ?w ?wk1 ?w1 ?net2 ?io2 2] b r
  have "run ?net2 ?io2 (ScrapperThread_init ''Beep'' 2 ?cf) ?w1 =
          (None, ?wk1\<lparr>wk_req_id := 2\<rparr>, ?w1)"
    by blast
  then show ?thesis
    using b g s l by blast
qed

theorem present_key_overwritten_counterexample:
  "files \<lparr>files = (\<lambda>p. if p = (''/plug'', ''cache.json'')
                        then Some (Doc (JObj [(''Beep'',
                          JObj [(''found'', JStr ''yes''), (''syntax'', JStr ''void Beep();'')])]))
                        else None),
          fs_ops = [], http_log = []\<rparr> (''/plug'', ''cache.json'') =
     Some (Doc (JObj [(''Beep'',
       JObj [(''found'', JStr ''yes''), (''syntax'', JStr ''void Beep();'')])])) \<and>
   fst (run \<lparr>search_api = (\<lambda>n. Some []), page_at = (\<lambda>u. None)\<rparr>
     \<lparr>makedirs_fails = False, temp_names = [''ab12''], dump_fails = False,
      replace_fails = False, remove_fails = False\<rparr>
     (ScrapperThread_init ''Beep'' 2 (''/plug'', ''cache.json''))
     \<lparr>files = (\<lambda>p. if p = (''/plug'', ''cache.json'')
                     then Some (Doc (JObj [(''Beep'',
                       JObj [(''found'', JStr ''yes''), (''syntax'', JStr ''void Beep();'')])]))
                     else None),
      fs_ops = [], http_log = []\<rparr>) = None \<and>
   http_log (snd (snd (run \<lparr>search_api = (\<lambda>n. Some []), page_at = (\<lambda>u. None)\<rparr>
     \<lparr>makedirs_fails = False, temp_names = [''ab12''], dump_fails = False,
      replace_fails = False, remove_fails = False\<rparr>
     (ScrapperThread_init ''Beep'' 2 (''/plug'', ''cache.json''))
     \<lparr>files = (\<lambda>p. if p = (''/plug'', ''cache.json'')
                     then Some (Doc (JObj [(''Beep'',
                       JObj [(''found'', JStr ''yes''), (''syntax'', JStr ''void Beep();'')])]))
                     else None),
      fs_ops = [], http_log = []\<rparr>))) = [Search ''Beep''] \<and>
   files (snd (snd (run \<lparr>search_api = (\<lambda>n. Some []), page_at = (\<lambda>u. None)\<rparr>
     \<lparr>makedirs_fails = False, temp_names = [''ab12''], dump_fails = False,
      replace_fails = False, remove_fails = False\<rparr>
     (ScrapperThread_init ''Beep'' 2 (''/plug'', ''cache.json''))
     \<lparr>files = (\<lambda>p. if p = (''/plug'', ''cache.json'')
                     then Some (Doc (JObj [(''Beep'',
                       JObj [(''found'', JStr ''yes''), (''syntax'', JStr ''void Beep();'')])]))
                     else None),
      fs_ops = [], http_log = []\<rparr>))) (''/plug'', ''cache.json'') =
     Some (Doc (JObj [(''Beep'',
       JObj [(''found'', JBool False), (''syntax'', JStr []), (''description'', JStr []),
             (''return_value'', JStr [])])]))"
  by code_simp

end
